theory Spec2Isabelle
  imports Complex_Main "HOL-Library.Sublist"
begin

section \<open>Values of the host language\<close>

text \<open>
  A thrown JavaScript error is its \<open>name\<close> and its \<open>message\<close>; \<open>new Error(msg)\<close> has the
  name \<open>Error\<close>, an aborted \<open>fetch\<close> rejects with an error named \<open>AbortError\<close>.
\<close>

datatype js_error = JsError (err_name: string) (err_message: string)

definition Error :: "string \<Rightarrow> js_error" where
  "Error msg = JsError ''Error'' msg"

text \<open>
  Strings are lists of one-byte characters, and a JavaScript number that counts something
  is a natural number. An optional string is truthy when it is present and not empty.
\<close>

fun truthy :: "string option \<Rightarrow> bool" where
  "truthy None = False"
| "truthy (Some s) = (s \<noteq> [])"

text \<open>
  Not every value that the program reads is a string: an object literal also answers to
  the names it inherits from \<open>Object.prototype\<close>, with a function for each method name
  and with the prototype itself for \<open>__proto__\<close>. A function is its name. Inside a
  template literal a value is replaced by its string form.
\<close>

datatype js_value = Str string | Function string | Object_prototype

fun to_string :: "js_value \<Rightarrow> string" where
  "to_string (Str s) = s"
| "to_string (Function f) = ''function '' @ f @ ''() { [native code] }''"
| "to_string Object_prototype = ''[object Object]''"

text \<open>A non-negative integer inside a template literal: its decimal digits.\<close>

fun string_of_nat :: "nat \<Rightarrow> string" where
  "string_of_nat n =
     (if n < 10 then [''0123456789'' ! n]
      else string_of_nat (n div 10) @ [''0123456789'' ! (n mod 10)])"

declare string_of_nat.simps [simp del]

text \<open>
  \<open>String.prototype.trim\<close> on strings of one-byte characters: tab, line feed, vertical tab,
  form feed, carriage return, space and the no-break space are white space.
\<close>

definition js_whitespace :: "char \<Rightarrow> bool" where
  "js_whitespace c = (of_char c \<in> {9, 10, 11, 12, 13, 32, 160 :: nat})"

definition trim :: "string \<Rightarrow> string" where
  "trim s = rev (dropWhile js_whitespace (rev (dropWhile js_whitespace s)))"

section \<open>Configuration\<close>

definition MAX_RETRIES :: nat where
  "MAX_RETRIES = 3"

definition BASE_DELAY :: nat where
  "BASE_DELAY = 1000"

definition REQUEST_TIMEOUT :: nat where
  "REQUEST_TIMEOUT = 60000"

text \<open>
  The constants read from the process environment at start-up. \<open>process_env\<close> is the
  environment of the process, a partial map from variable names to values.
\<close>

type_synonym process_env = "string \<rightharpoonup> string"

definition toLowerCase :: "string \<Rightarrow> string" where
  "toLowerCase s =
     map (\<lambda>c. if 65 \<le> (of_char c :: nat) \<and> (of_char c :: nat) \<le> 90
               then char_of ((of_char c :: nat) + 32) else c) s"

definition GEMINI_API_KEY :: "process_env \<Rightarrow> string" where
  "GEMINI_API_KEY env = (case env ''GEMINI_API_KEY'' of None \<Rightarrow> [] | Some k \<Rightarrow> k)"

definition DEFAULT_SAVE_DIR :: "process_env \<Rightarrow> string" where
  "DEFAULT_SAVE_DIR env =
     (case env ''DEFAULT_SAVE_DIR'' of None \<Rightarrow> ''~/Downloads/gemini-images'' | Some d \<Rightarrow> d)"


section \<open>Data model\<close>

record InlineImageInput =
  dataBase64 :: "string option"
  path :: "string option"
  mimeType :: "string option"

record GenerateRequest =
  prompt :: string
  images :: "InlineImageInput list option"

text \<open>A part of the request body: \<open>{text}\<close> or \<open>{inline_data: {mime_type, data}}\<close>.\<close>

datatype request_part = Text string | Inline_data (mime_type: string) (data: string)

text \<open>The response body, as far as \<open>GeminiGenerateResponse\<close> types it.\<close>

record inline_data_json =
  inline_data :: "string option"
  inline_mimeType :: "string option"

record response_part =
  inlineData :: "inline_data_json option"
  part_text :: "string option"

record content_json =
  parts :: "response_part list option"

record candidate_json =
  content :: "content_json option"

record GeminiGenerateResponse =
  candidates :: "candidate_json list option"

text \<open>A decoded image, the element of the pipeline's result list.\<close>

record image =
  imageBase64 :: string
  image_mimeType :: string

section \<open>The world outside the program\<close>

text \<open>
  An HTTP response is its status and what reading its body gives: \<open>json()\<close> and \<open>text()\<close>
  each resolve or reject. A \<open>fetch\<close> rejects (network failure, or abort by the timeout
  timer) or resolves with a response.
\<close>

record http_response =
  status :: nat
  json_result :: "js_error + GeminiGenerateResponse"
  text_result :: "js_error + string"

datatype fetch_outcome = Rejected js_error | Resolved http_response

definition AbortError :: js_error where
  "AbortError = JsError ''AbortError'' ''This operation was aborted''"

definition ok :: "http_response \<Rightarrow> bool" where
  "ok r = (200 \<le> status r \<and> status r \<le> 299)"

datatype fs_entry = File "nat list" | Directory

text \<open>
  The world is what the program reads from outside and what it leaves behind.
  \<open>network k\<close> is the outcome of the \<open>k\<close>-th request, \<open>random k\<close> the \<open>k\<close>-th value of
  \<open>Math.random()\<close>, \<open>now\<close> the value of \<open>new Date().toISOString()\<close>; \<open>sent\<close> lists the
  parts of every request issued so far, \<open>drawn\<close> counts the random values used, \<open>slept\<close>
  lists the delays waited, \<open>files\<close> is the file system, and \<open>mkdir_fault\<close>, \<open>write_fault\<close>
  are the failures the operating system reports for reasons outside this model.
\<close>

record world =
  network :: "nat \<Rightarrow> fetch_outcome"
  random :: "nat \<Rightarrow> real"
  now :: string
  sent :: "request_part list list"
  drawn :: nat
  slept :: "real list"
  files :: "string \<rightharpoonup> fs_entry"
  mkdir_fault :: "string \<rightharpoonup> js_error"
  write_fault :: "string \<rightharpoonup> js_error"

text \<open>
  The functions of Node's \<open>path\<close> module and of \<open>Buffer\<close> that the program calls. They are
  parameters of the model; \<open>resolve\<close> depends on the working directory of the process.
  \<open>basename\<close> is the function on a path and a suffix that are strings; called with a
  suffix that is not a string it throws, and \<open>basename_throws\<close> is the error it throws for
  that suffix.
\<close>

record node =
  resolve :: "string \<Rightarrow> string"
  extname :: "string \<Rightarrow> string"
  dirname :: "string \<Rightarrow> string"
  basename :: "string \<Rightarrow> string \<Rightarrow> string"
  basename_throws :: "js_value \<Rightarrow> js_error"
  join :: "string \<Rightarrow> string \<Rightarrow> string"
  toBase64 :: "nat list \<Rightarrow> string"
  fromBase64 :: "string \<Rightarrow> nat list"

definition fetch :: "request_part list \<Rightarrow> world \<Rightarrow> fetch_outcome \<times> world" where
  "fetch body w = (network w (length (sent w)), w\<lparr>sent := sent w @ [body]\<rparr>)"

definition Math_random :: "world \<Rightarrow> real \<times> world" where
  "Math_random w = (random w (drawn w), w\<lparr>drawn := drawn w + 1\<rparr>)"

definition sleep :: "real \<Rightarrow> world \<Rightarrow> world" where
  "sleep ms w = w\<lparr>slept := slept w @ [ms]\<rparr>"

definition readFile :: "world \<Rightarrow> string \<Rightarrow> js_error + nat list" where
  "readFile w p =
     (case files w p of
        None \<Rightarrow> Inl (Error (''ENOENT: no such file or directory, open '' @ p))
      | Some Directory \<Rightarrow> Inl (Error ''EISDIR: illegal operation on a directory, read'')
      | Some (File bytes) \<Rightarrow> Inr bytes)"

section \<open>Retry utilities\<close>

text \<open>
  A JavaScript number is an IEEE 754 binary64 value, and every arithmetic operation
  returns the exact result rounded to the nearest such value, ties to the one whose last
  digit is even. A finite binary64 value is a real number, so the model computes over the
  reals and rounds after each operation with \<open>fl\<close>. The binade of a positive \<open>x\<close> is the
  exponent \<open>e\<close> with \<open>2 ^ e \<le> x < 2 ^ (e + 1)\<close>, kept between \<open>- 1022\<close> (below which the
  values are subnormal and equally spaced) and \<open>1023\<close>; the values of a binade are the
  multiples of \<open>ulp\<close>, 52 binary digits below the first one. Overflow to infinity, which
  begins at \<open>2 ^ 1024\<close>, is not part of the model.
\<close>

definition pow2 :: "int \<Rightarrow> real" where
  "pow2 e = (if 0 \<le> e then 2 ^ nat e else 1 / 2 ^ nat (- e))"

fun binade_up :: "nat \<Rightarrow> int \<Rightarrow> real \<Rightarrow> int" where
  "binade_up 0 e x = e"
| "binade_up (Suc fuel) e x = (if x < 2 * pow2 e then e else binade_up fuel (e + 1) x)"

fun binade_down :: "nat \<Rightarrow> int \<Rightarrow> real \<Rightarrow> int" where
  "binade_down 0 e x = e"
| "binade_down (Suc fuel) e x = (if pow2 e \<le> x then e else binade_down fuel (e - 1) x)"

definition binade :: "real \<Rightarrow> int" where
  "binade x = (if 1 \<le> x then binade_up 1023 0 x else binade_down 1022 0 x)"

definition ulp :: "real \<Rightarrow> real" where
  "ulp x = pow2 (binade x - 52)"

definition rne :: "real \<Rightarrow> int" where
  "rne q =
     (let f = \<lfloor>q\<rfloor>; d = q - of_int f
      in if d < 1 / 2 then f else if 1 / 2 < d then f + 1 else if even f then f else f + 1)"

definition fl :: "real \<Rightarrow> real" where
  "fl x = (if x = 0 then 0 else sgn x * (of_int (rne (\<bar>x\<bar> / ulp \<bar>x\<bar>)) * ulp \<bar>x\<bar>))"

text \<open>
  \<open>Math.random()\<close> is a value from 0 up to, not including, 1, read from the world. The
  delay is \<open>BASE_DELAY * Math.pow(2, attempt) + Math.random() * 1000\<close>: a power, two
  products and a sum, each rounded.
\<close>

definition shouldRetry :: "nat \<Rightarrow> bool" where
  "shouldRetry s = (s = 429 \<or> (s \<ge> 500 \<and> s < 600))"

definition calculateDelay :: "nat \<Rightarrow> world \<Rightarrow> real \<times> world" where
  "calculateDelay attempt w =
     (let (r, w') = Math_random w
      in (fl (fl (real BASE_DELAY * fl (2 ^ attempt)) + fl (r * 1000)), w'))"

section \<open>Request construction\<close>

definition fileToBase64 :: "node \<Rightarrow> world \<Rightarrow> string \<Rightarrow> js_error + string" where
  "fileToBase64 lib w pathOrRelative =
     (let full = resolve lib pathOrRelative
      in case readFile w full of Inl e \<Rightarrow> Inl e | Inr buf \<Rightarrow> Inr (toBase64 lib buf))"

text \<open>
  One pass through the \<open>for\<close> loop of \<open>toInlineDataParts\<close>: the part built from one
  input, or the error thrown.
\<close>

definition inline_part :: "node \<Rightarrow> world \<Rightarrow> InlineImageInput \<Rightarrow> js_error + request_part" where
  "inline_part lib w input =
     (let mime = (case mimeType input of None \<Rightarrow> ''image/png'' | Some m \<Rightarrow> m) in
      case (if \<not> truthy (dataBase64 input) \<and> truthy (path input)
            then map_sum id Some (fileToBase64 lib w (the (path input)))
            else Inr (dataBase64 input)) of
        Inl e \<Rightarrow> Inl e
      | Inr d \<Rightarrow>
          if \<not> truthy d
          then Inl (Error ''InlineImageInput requires either dataBase64 or path'')
          else Inr (Inline_data mime (the d)))"

text \<open>The loop itself; \<open>acc\<close> is the array \<open>parts\<close> that the loop pushes to.\<close>

fun inline_parts_loop ::
  "node \<Rightarrow> world \<Rightarrow> request_part list \<Rightarrow> InlineImageInput list \<Rightarrow> js_error + request_part list"
where
  "inline_parts_loop lib w acc [] = Inr acc"
| "inline_parts_loop lib w acc (input # rest) =
     (case inline_part lib w input of
        Inl e \<Rightarrow> Inl e
      | Inr p \<Rightarrow> inline_parts_loop lib w (acc @ [p]) rest)"

definition toInlineDataParts ::
  "node \<Rightarrow> world \<Rightarrow> InlineImageInput list option \<Rightarrow> js_error + request_part list"
where
  "toInlineDataParts lib w inputs =
     (case inputs of
        None \<Rightarrow> Inr []
      | Some xs \<Rightarrow> if length xs = 0 then Inr [] else inline_parts_loop lib w [] xs)"

section \<open>Response decoding\<close>

definition first_parts :: "GeminiGenerateResponse \<Rightarrow> response_part list" where
  "first_parts json =
     (case candidates json of
        None \<Rightarrow> []
      | Some [] \<Rightarrow> []
      | Some (c # _) \<Rightarrow>
          (case content c of
             None \<Rightarrow> []
           | Some ct \<Rightarrow> (case parts ct of None \<Rightarrow> [] | Some ps \<Rightarrow> ps)))"

fun collect_images :: "image list \<Rightarrow> response_part list \<Rightarrow> image list" where
  "collect_images acc [] = acc"
| "collect_images acc (part # rest) =
     (case inlineData part of
        None \<Rightarrow> collect_images acc rest
      | Some d \<Rightarrow>
          if truthy (inline_data d)
          then collect_images
                 (acc @ [\<lparr>imageBase64 = the (inline_data d),
                          image_mimeType = (case inline_mimeType d of
                                              None \<Rightarrow> ''image/png'' | Some m \<Rightarrow> m)\<rparr>])
                 rest
          else collect_images acc rest)"

section \<open>The retry loop\<close>

text \<open>
  How the \<open>try\<close> block of one attempt ends: it returns the images, it throws, or it
  falls through to the end of the block with the error it stored in \<open>lastError\<close>.
\<close>

datatype try_end = TryReturn "image list" | TryThrow js_error | TryFall js_error

definition try_block :: "request_part list \<Rightarrow> nat \<Rightarrow> world \<Rightarrow> try_end \<times> world" where
  "try_block body attempt w =
     (let (outcome, w1) = fetch body w in
      case outcome of
        Rejected e \<Rightarrow> (TryThrow e, w1)
      | Resolved fetchResponse \<Rightarrow>
          if ok fetchResponse then
            (case json_result fetchResponse of
               Inl e \<Rightarrow> (TryThrow e, w1)
             | Inr json \<Rightarrow>
                 (let imgs = collect_images [] (first_parts json) in
                  if length imgs = 0
                  then (TryThrow (Error ''No image data returned by Gemini API''), w1)
                  else (TryReturn imgs, w1)))
          else
            (case text_result fetchResponse of
               Inl e \<Rightarrow> (TryThrow e, w1)
             | Inr errorText \<Rightarrow>
                 (let error = Error (''Gemini API error '' @ string_of_nat (status fetchResponse)
                                      @ '': '' @ errorText) in
                  if \<not> shouldRetry (status fetchResponse) \<or> attempt = MAX_RETRIES
                  then (TryThrow error, w1)
                  else (let (delay, w2) = calculateDelay attempt w1 in (TryFall error, w2)))))"

text \<open>
  How one pass through the loop body ends, before the sleep: the function returns, the
  function throws, or the loop goes on with a new \<open>lastError\<close>.
\<close>

datatype pass_end = Return "image list" | Throw js_error | Continue js_error

definition catch_block :: "nat \<Rightarrow> js_error \<Rightarrow> pass_end" where
  "catch_block attempt err =
     (if err_name err = ''AbortError''
      then Throw (Error (''Request timed out after '' @ string_of_nat (REQUEST_TIMEOUT div 1000)
                          @ '' seconds''))
      else if attempt = MAX_RETRIES then Throw err
      else Continue err)"

definition try_catch :: "request_part list \<Rightarrow> nat \<Rightarrow> world \<Rightarrow> pass_end \<times> world" where
  "try_catch body attempt w =
     (case try_block body attempt w of
        (TryReturn imgs, w') \<Rightarrow> (Return imgs, w')
      | (TryFall e, w') \<Rightarrow> (Continue e, w')
      | (TryThrow err, w') \<Rightarrow> (catch_block attempt err, w'))"

definition backoff :: "nat \<Rightarrow> world \<Rightarrow> world" where
  "backoff attempt w =
     (if attempt < MAX_RETRIES
      then (let (d, w') = calculateDelay attempt w in sleep d w')
      else w)"

function retry_loop ::
  "request_part list \<Rightarrow> nat \<Rightarrow> js_error option \<Rightarrow> world \<Rightarrow> (js_error + image list) \<times> world"
where
  "retry_loop body attempt lastError w =
     (if attempt \<le> MAX_RETRIES then
        (case try_catch body attempt w of
           (Return imgs, w') \<Rightarrow> (Inr imgs, w')
         | (Throw e, w') \<Rightarrow> (Inl e, w')
         | (Continue e, w') \<Rightarrow> retry_loop body (attempt + 1) (Some e) (backoff attempt w'))
      else
        (Inl (case lastError of Some e \<Rightarrow> e | None \<Rightarrow> Error ''Max retries exceeded''), w))"
  by pat_completeness auto
termination
  by (relation "measure (\<lambda>(body, attempt, lastError, w). Suc MAX_RETRIES - attempt)") auto

declare retry_loop.simps [simp del]

definition callGeminiGenerate ::
  "process_env \<Rightarrow> node \<Rightarrow> GenerateRequest \<Rightarrow> world \<Rightarrow> (js_error + image list) \<times> world"
where
  "callGeminiGenerate env lib request w =
     (if GEMINI_API_KEY env = [] \<or> trim (GEMINI_API_KEY env) = []
      then (Inl (Error ''GEMINI_API_KEY environment variable is required but not set or empty''), w)
      else
        (case toInlineDataParts lib w (images request) of
           Inl e \<Rightarrow> (Inl e, w)
         | Inr imageParts \<Rightarrow> retry_loop (Text (prompt request) # imageParts) 0 None w))"

section \<open>Saving an image\<close>

text \<open>
  The table from MIME types to extensions is an object literal with five entries of its
  own. Read at any other name it answers with what an object literal inherits: the
  methods of \<open>Object.prototype\<close>, its \<open>constructor\<close>, which is the function \<open>Object\<close>, and
  under \<open>__proto__\<close> the prototype itself. Every one of these is truthy, so that the
  default \<open>.png\<close> takes the place of a missing entry only.
\<close>

definition inherited :: "string \<rightharpoonup> js_value" where
  "inherited key =
     (if key = ''__proto__'' then Some Object_prototype
      else if key = ''constructor'' then Some (Function ''Object'')
      else if key \<in> set [''__defineGetter__'', ''__defineSetter__'', ''hasOwnProperty'',
                            ''__lookupGetter__'', ''__lookupSetter__'', ''isPrototypeOf'',
                            ''propertyIsEnumerable'', ''toString'', ''valueOf'', ''toLocaleString'']
      then Some (Function key)
      else None)"

definition mimeToExt :: "string \<rightharpoonup> js_value" where
  "mimeToExt key =
     (case map_of
             [(''image/png'', ''.png''),
              (''image/jpeg'', ''.jpg''),
              (''image/jpg'', ''.jpg''),
              (''image/webp'', ''.webp''),
              (''image/gif'', ''.gif'')] key of
        Some e \<Rightarrow> Some (Str e)
      | None \<Rightarrow> inherited key)"

definition detectedExt :: "string \<Rightarrow> js_value" where
  "detectedExt mime =
     (case mimeToExt (toLowerCase mime) of
        None \<Rightarrow> Str ''.png''
      | Some v \<Rightarrow> if v = Str [] then Str ''.png'' else v)"

definition providedExt :: "node \<Rightarrow> string \<Rightarrow> string" where
  "providedExt lib targetPath = extname lib targetPath"

definition extension :: "node \<Rightarrow> string \<Rightarrow> string \<Rightarrow> js_value" where
  "extension lib mime targetPath =
     (if providedExt lib targetPath \<noteq> [] then Str (providedExt lib targetPath)
      else detectedExt mime)"

definition basePath :: "node \<Rightarrow> string \<Rightarrow> string \<Rightarrow> string" where
  "basePath lib mime targetPath =
     (if providedExt lib targetPath \<noteq> [] then targetPath
      else targetPath @ to_string (extension lib mime targetPath))"

text \<open>
  \<open>access(p)\<close> resolves when something exists at \<open>p\<close>. \<open>mkdir(dir, {recursive: true})\<close>
  creates \<open>dir\<close> and every missing directory above it, and fails when a file is in the
  way; \<open>ancestors dir\<close> are the prefixes of \<open>dir\<close> that end before a separator, and
  \<open>dir\<close> itself. \<open>writeFile\<close> creates or replaces the file at its path.
\<close>

definition access :: "world \<Rightarrow> string \<Rightarrow> bool" where
  "access w p = (files w p \<noteq> None)"

fun prefixes_at_slash :: "string \<Rightarrow> string \<Rightarrow> string list" where
  "prefixes_at_slash pre [] = [pre]"
| "prefixes_at_slash pre (c # cs) =
     (if c = CHR ''/'' \<and> pre \<noteq> [] then [pre] else []) @ prefixes_at_slash (pre @ [c]) cs"

definition ancestors :: "string \<Rightarrow> string list" where
  "ancestors dir = prefixes_at_slash [] dir"

definition is_file :: "world \<Rightarrow> string \<Rightarrow> bool" where
  "is_file w p = (case files w p of Some (File b) \<Rightarrow> True | _ \<Rightarrow> False)"

definition mkdir :: "string \<Rightarrow> world \<Rightarrow> js_error + world" where
  "mkdir dir w =
     (case mkdir_fault w dir of
        Some e \<Rightarrow> Inl e
      | None \<Rightarrow>
          if list_ex (is_file w) (ancestors dir)
          then Inl (Error (''EEXIST: file already exists, mkdir '' @ dir))
          else Inr (w\<lparr>files := (\<lambda>p. if p \<in> set (ancestors dir) \<and> files w p = None
                                      then Some Directory else files w p)\<rparr>))"

definition writeFile :: "string \<Rightarrow> nat list \<Rightarrow> world \<Rightarrow> js_error + world" where
  "writeFile p buffer w =
     (case write_fault w p of
        Some e \<Rightarrow> Inl e
      | None \<Rightarrow>
          (case files w p of
             Some Directory \<Rightarrow> Inl (Error ''EISDIR: illegal operation on a directory, open'')
           | _ \<Rightarrow> Inr (w\<lparr>files := (files w)(p \<mapsto> File buffer)\<rparr>)))"

text \<open>
  The \<open>while (true)\<close> loop that looks for a free name. It has no bound: where every
  candidate exists it does not return, which is the value \<open>None\<close>.
\<close>

partial_function (option) collision_loop ::
  "node \<Rightarrow> world \<Rightarrow> string \<Rightarrow> string \<Rightarrow> string \<Rightarrow> string \<Rightarrow> nat \<Rightarrow> string option"
where
  "collision_loop lib w dir nm ext finalPath counter =
     (if access w finalPath
      then collision_loop lib w dir nm ext
             (join lib dir (nm @ ''_'' @ string_of_nat (counter + 1) @ ext)) (counter + 1)
      else Some finalPath)"

text \<open>
  \<open>maybeSaveImage\<close> returns the path written, or nothing when no target was given; every
  error inside is rethrown with the prefix \<open>Failed to save image\<close>. The name without
  extension is taken with \<open>basename\<close> before the directory is made, so that an extension
  that is not a string ends the save there, with nothing made or written.
\<close>

definition maybeSaveImage ::
  "node \<Rightarrow> string \<Rightarrow> string \<Rightarrow> string option \<Rightarrow> world
     \<Rightarrow> ((js_error + string option) \<times> world) option"
where
  "maybeSaveImage lib base64 mime targetPath w =
     (if \<not> truthy targetPath then Some (Inr None, w)
      else
        (let target = the targetPath;
             resolved = resolve lib (basePath lib mime target);
             dir = dirname lib resolved
         in case extension lib mime target of
              Str ext \<Rightarrow>
                (let nm = basename lib resolved ext
                 in case mkdir dir w of
                      Inl err \<Rightarrow>
                        Some (Inl (Error (''Failed to save image: '' @ ''Failed to create directory: ''
                                           @ err_message err)), w)
                    | Inr w1 \<Rightarrow>
                        (case collision_loop lib w1 dir nm ext resolved 0 of
                           None \<Rightarrow> None
                         | Some finalPath \<Rightarrow>
                             (case writeFile finalPath (fromBase64 lib base64) w1 of
                                Inl err \<Rightarrow>
                                  Some (Inl (Error (''Failed to save image: '' @ err_message err)), w1)
                              | Inr w2 \<Rightarrow> Some (Inr (Some finalPath), w2))))
            | v \<Rightarrow>
                Some (Inl (Error (''Failed to save image: '' @ err_message (basename_throws lib v))),
                      w)))"

section \<open>Default file names\<close>

text \<open>
  \<open>split\<close> with a separator of one character; the replacement of every colon and dot
  by a hyphen; the home directory that takes the place of a leading tilde (a dollar sign
  in it would be read as a pattern by \<open>replace\<close>, which the model does not follow).
\<close>

fun split_on :: "char \<Rightarrow> string \<Rightarrow> string list" where
  "split_on sep [] = [ [] ]"
| "split_on sep (c # cs) =
     (if c = sep then [] # split_on sep cs
      else (case split_on sep cs of [] \<Rightarrow> [ [c] ] | x # xs \<Rightarrow> (c # x) # xs))"

definition replace_colon_dot :: "string \<Rightarrow> string" where
  "replace_colon_dot s = map (\<lambda>c. if c = CHR '':'' \<or> c = CHR ''.'' then CHR ''-'' else c) s"

definition home_directory :: "process_env \<Rightarrow> string" where
  "home_directory env =
     (if truthy (env ''HOME'') then the (env ''HOME'')
      else if truthy (env ''USERPROFILE'') then the (env ''USERPROFILE'')
      else ''.'')"

definition expandedDir :: "process_env \<Rightarrow> string" where
  "expandedDir env =
     (case DEFAULT_SAVE_DIR env of
        [] \<Rightarrow> []
      | c # rest \<Rightarrow> if c = CHR ''~'' then home_directory env @ rest else c # rest)"

definition generateDefaultFileName ::
  "process_env \<Rightarrow> string \<Rightarrow> string \<Rightarrow> world \<Rightarrow> js_error + string"
where
  "generateDefaultFileName env tool mime w =
     (let timestamp = split_on CHR ''T'' (replace_colon_dot (now w));
          date = hd timestamp
      in if length timestamp < 2
         then Inl (JsError ''TypeError'' ''Cannot read properties of undefined (reading split)'')
         else
           (let time = hd (split_on CHR ''.'' (timestamp ! 1));
                ext = (if mime = ''image/jpeg'' then ''jpg'' else ''png'')
            in Inr (expandedDir env @ ''/'' @ tool @ ''-'' @ date @ ''-'' @ time @ ''.'' @ ext)))"

section \<open>The tools\<close>






















section \<open>An instance of the library: POSIX paths and base64\<close>

text \<open>
  Node's \<open>path\<close> functions on POSIX, as functions on strings. A path is split at its
  separators; its last component is what follows the last separator once the trailing
  separators are dropped.
\<close>

definition slash :: "char \<Rightarrow> bool" where
  "slash c = (c = CHR ''/'')"

definition strip_slashes :: "string \<Rightarrow> string" where
  "strip_slashes p = rev (dropWhile slash (rev p))"

definition last_component :: "string \<Rightarrow> string" where
  "last_component p = rev (takeWhile (\<lambda>c. \<not> slash c) (rev (strip_slashes p)))"

text \<open>
  \<open>extname\<close>: from the last dot of the last component to its end; empty when there is no
  dot, when the only dot opens the component, or when the component is \<open>..\<close>.
\<close>

definition posix_extname :: "string \<Rightarrow> string" where
  "posix_extname p =
     (let comp = last_component p;
          after = rev (takeWhile (\<lambda>c. c \<noteq> CHR ''.'') (rev comp))
      in if CHR ''.'' \<notin> set comp then []
         else if length comp = Suc (length after) then []
         else if comp = ''..'' then []
         else CHR ''.'' # after)"

text \<open>
  \<open>basename(p, suffix)\<close>: the last component, without the suffix when the component ends
  with it and is longer than it. Where the component is only the tail of the suffix, Node
  returns the component together with the separators that follow it.
\<close>

definition ends_with :: "string \<Rightarrow> string \<Rightarrow> bool" where
  "ends_with s sfx = (length sfx \<le> length s \<and> drop (length s - length sfx) s = sfx)"

definition posix_basename :: "string \<Rightarrow> string \<Rightarrow> string" where
  "posix_basename p sfx =
     (let comp = last_component p in
      if sfx = [] \<or> length p < length sfx then comp
      else if sfx = p then []
      else if ends_with comp sfx
        then (if comp = sfx then comp else take (length comp - length sfx) comp)
      else if ends_with sfx comp
        then drop (length (strip_slashes p) - length comp) p
      else comp)"

text \<open>
  \<open>dirname\<close>: what precedes the separator in front of the last component; the first
  character of the path is never taken for that separator.
\<close>

definition posix_dirname :: "string \<Rightarrow> string" where
  "posix_dirname p =
     (case p of
        [] \<Rightarrow> ''.''
      | c # rest \<Rightarrow>
          (let r = strip_slashes rest;
               keep = rev (dropWhile (\<lambda>x. \<not> slash x) (rev r))
           in if keep = [] then (if slash c then ''/'' else ''.'')
              else if slash c \<and> length keep = 1 then ''//''
              else c # butlast keep))"

text \<open>
  \<open>normalizeString\<close>: empty segments and \<open>.\<close> vanish, \<open>..\<close> removes the segment before it
  or, where there is none, stays when the path may rise above its start. \<open>stack\<close> holds
  the segments kept so far, the last one first.
\<close>

fun normalize_segments :: "bool \<Rightarrow> string list \<Rightarrow> string list \<Rightarrow> string list" where
  "normalize_segments rise stack [] = rev stack"
| "normalize_segments rise stack (seg # segs) =
     (if seg = [] \<or> seg = ''.'' then normalize_segments rise stack segs
      else if seg = ''..'' then
        (case stack of
           [] \<Rightarrow> normalize_segments rise (if rise then [''..''] else []) segs
         | seg0 # older \<Rightarrow>
             if seg0 = ''..'' then normalize_segments rise (if rise then ''..'' # stack else stack) segs
             else normalize_segments rise older segs)
      else normalize_segments rise (seg # stack) segs)"

fun join_segments :: "string list \<Rightarrow> string" where
  "join_segments [] = []"
| "join_segments [s] = s"
| "join_segments (s # t # ss) = s @ ''/'' @ join_segments (t # ss)"

definition normalizeString :: "string \<Rightarrow> bool \<Rightarrow> string" where
  "normalizeString p rise = join_segments (normalize_segments rise [] (split_on CHR ''/'' p))"

definition isAbsolute :: "string \<Rightarrow> bool" where
  "isAbsolute p = (case p of [] \<Rightarrow> False | c # _ \<Rightarrow> slash c)"

definition posix_normalize :: "string \<Rightarrow> string" where
  "posix_normalize p =
     (if p = [] then ''.''
      else
        (let trailing = slash (last p);
             q = normalizeString p (\<not> isAbsolute p)
         in if q = [] then (if isAbsolute p then ''/'' else if trailing then ''./'' else ''.'')
            else (if isAbsolute p then ''/'' else []) @ q @ (if trailing then ''/'' else [])))"

definition posix_join :: "string \<Rightarrow> string \<Rightarrow> string" where
  "posix_join a b =
     (if a = [] \<and> b = [] then ''.''
      else if a = [] then posix_normalize b
      else if b = [] then posix_normalize a
      else posix_normalize (a @ ''/'' @ b))"

text \<open>\<open>resolve\<close> with one argument, in a process whose working directory is \<open>cwd\<close>.\<close>

definition posix_resolve :: "string \<Rightarrow> string \<Rightarrow> string" where
  "posix_resolve cwd p =
     (let full = (if p = [] then cwd else if isAbsolute p then p else cwd @ ''/'' @ p)
      in ''/'' @ normalizeString full False)"

text \<open>Base64 with the standard alphabet; decoding stops at the padding.\<close>

definition base64_alphabet :: string where
  "base64_alphabet = ''ABCDEFGHIJKLMNOPQRSTUVWXYZabcdefghijklmnopqrstuvwxyz0123456789+/''"

fun base64_encode :: "nat list \<Rightarrow> string" where
  "base64_encode [] = []"
| "base64_encode [a] =
     [base64_alphabet ! (a div 4), base64_alphabet ! ((a mod 4) * 16), CHR ''='', CHR ''='']"
| "base64_encode [a, b] =
     [base64_alphabet ! (a div 4), base64_alphabet ! ((a mod 4) * 16 + b div 16),
      base64_alphabet ! ((b mod 16) * 4), CHR ''='']"
| "base64_encode (a # b # c # rest) =
     [base64_alphabet ! (a div 4), base64_alphabet ! ((a mod 4) * 16 + b div 16),
      base64_alphabet ! ((b mod 16) * 4 + c div 64), base64_alphabet ! (c mod 64)]
     @ base64_encode rest"

fun index_of :: "char \<Rightarrow> string \<Rightarrow> nat \<Rightarrow> nat option" where
  "index_of c [] i = None"
| "index_of c (x # xs) i = (if c = x then Some i else index_of c xs (Suc i))"

fun sextets :: "string \<Rightarrow> nat list" where
  "sextets [] = []"
| "sextets (c # cs) =
     (if c = CHR ''='' then []
      else (case index_of c base64_alphabet 0 of
              None \<Rightarrow> sextets cs
            | Some v \<Rightarrow> v # sextets cs))"

fun bytes_of_sextets :: "nat list \<Rightarrow> nat list" where
  "bytes_of_sextets (a # b # c # d # rest) =
     [a * 4 + b div 16, (b mod 16) * 16 + c div 4, (c mod 4) * 64 + d] @ bytes_of_sextets rest"
| "bytes_of_sextets [a, b, c] = [a * 4 + b div 16, (b mod 16) * 16 + c div 4]"
| "bytes_of_sextets [a, b] = [a * 4 + b div 16]"
| "bytes_of_sextets _ = []"

definition base64_decode :: "string \<Rightarrow> nat list" where
  "base64_decode s = bytes_of_sextets (sextets s)"

text \<open>
  The error of \<open>basename\<close> for a suffix that is a function or an object, of the name and
  with the message that current versions of Node give it.
\<close>

fun received :: "js_value \<Rightarrow> string" where
  "received (Function f) = ''function '' @ f"
| "received Object_prototype = ''an instance of Object''"

definition ERR_INVALID_ARG_TYPE :: "string \<Rightarrow> js_value \<Rightarrow> js_error" where
  "ERR_INVALID_ARG_TYPE arg v =
     JsError ''TypeError''
       (''The '' @ [CHR 0x22] @ arg @ [CHR 0x22] @ '' argument must be of type string. Received ''
        @ received v)"

definition posix :: "string \<Rightarrow> node" where
  "posix cwd =
     \<lparr>resolve = posix_resolve cwd,
      extname = posix_extname,
      dirname = posix_dirname,
      basename = posix_basename,
      basename_throws = ERR_INVALID_ARG_TYPE ''suffix'',
      join = posix_join,
      toBase64 = base64_encode,
      fromBase64 = base64_decode\<rparr>"

section \<open>Example worlds\<close>

text \<open>
  A world with nothing on disk and nothing sent, whose random source always gives one
  half; replies of the provider; a process environment with a key and a home directory.
\<close>

definition fresh_world :: "(nat \<Rightarrow> fetch_outcome) \<Rightarrow> world" where
  "fresh_world net =
     \<lparr>network = net, random = (\<lambda>k. 1 / 2), now = ''2025-01-02T03:04:05.678Z'',
      sent = [], drawn = 0, slept = [],
      files = Map.empty, mkdir_fault = Map.empty, write_fault = Map.empty\<rparr>"

definition picture :: response_part where
  "picture = \<lparr>inlineData = Some \<lparr>inline_data = Some ''QUJD'', inline_mimeType = Some ''image/jpeg''\<rparr>,
              part_text = None\<rparr>"

definition caption :: response_part where
  "caption = \<lparr>inlineData = None, part_text = Some ''Here is your image''\<rparr>"

definition reply :: "nat \<Rightarrow> response_part list \<Rightarrow> string \<Rightarrow> fetch_outcome" where
  "reply s ps body_text =
     Resolved \<lparr>status = s,
               json_result = Inr \<lparr>candidates = Some [\<lparr>content = Some \<lparr>parts = Some ps\<rparr>\<rparr>]\<rparr>,
               text_result = Inr body_text\<rparr>"

definition configured :: process_env where
  "configured = [''GEMINI_API_KEY'' \<mapsto> ''secret'', ''HOME'' \<mapsto> ''/home/u'']"

definition cat_request :: GenerateRequest where
  "cat_request = \<lparr>prompt = ''a cat'', images = None\<rparr>"

definition then_picture :: "fetch_outcome \<Rightarrow> nat \<Rightarrow> fetch_outcome" where
  "then_picture first_outcome k = (if k = 0 then first_outcome else reply 200 [picture] [])"

text \<open>
  Two inputs for a composition, one given as base64 text and one as a path, and a world
  in which the file behind that path holds the bytes of \<open>ABC\<close>.
\<close>

definition two_inputs :: "InlineImageInput list" where
  "two_inputs =
     [\<lparr>dataBase64 = Some ''AAAA'', path = None, mimeType = Some ''image/jpeg''\<rparr>,
      \<lparr>dataBase64 = None, path = Some ''in.png'', mimeType = None\<rparr>]"

definition blend_request :: GenerateRequest where
  "blend_request = \<lparr>prompt = ''blend them'', images = Some two_inputs\<rparr>"

definition with_input_file :: "world \<Rightarrow> world" where
  "with_input_file w = w\<lparr>files := (files w)(''/home/u/in.png'' \<mapsto> File [65, 66, 67])\<rparr>"

text \<open>
  A file of three bytes at a path, and a world where \<open>out.png\<close> and \<open>out_1.png\<close> are
  both taken.
\<close>

definition with_file :: "string \<Rightarrow> world \<Rightarrow> world" where
  "with_file p w = w\<lparr>files := (files w)(p \<mapsto> File [1, 2, 3])\<rparr>"

definition crowded :: world where
  "crowded = with_file ''/home/u/out_1.png'' (with_file ''/home/u/out.png''
               (fresh_world (\<lambda>k. reply 200 [picture] [])))"





section \<open>Properties of rounding\<close>

text \<open>
  Rounding never crosses an integer: below \<open>2 ^ 53\<close> every integer is a binary64 value, so
  a bound that is an integer holds of the rounded value as it holds of the exact one, and
  an integer is rounded to itself.
\<close>

lemma pow2_powr: "pow2 e = 2 powr (real_of_int e)"
  by (simp add: pow2_def powr_realpow [symmetric] powr_minus divide_inverse)

lemma pow2_pos [simp]: "0 < pow2 e"
  by (simp add: pow2_powr)

lemma pow2_succ: "pow2 (e + 1) = 2 * pow2 e"
  by (simp add: pow2_powr powr_add)

lemma pow2_less_iff: "pow2 a < pow2 b \<longleftrightarrow> a < b"
  by (simp add: pow2_powr)


lemma binade_up_le:
  assumes "x < 2 * pow2 E" and "e0 \<le> E"
  shows "binade_up fuel e0 x \<le> E"
  using assms
proof (induction fuel arbitrary: e0)
  case 0
  then show ?case by simp
next
  case (Suc fuel)
  show ?case
  proof (cases "x < 2 * pow2 e0")
    case True
    with Suc.prems show ?thesis by simp
  next
    case False
    with Suc.prems(1) have "pow2 (e0 + 1) < pow2 (E + 1)" by (simp add: pow2_succ)
    then have "e0 + 1 \<le> E" by (simp add: pow2_less_iff)
    from Suc.IH [OF Suc.prems(1) this] False show ?thesis by simp
  qed
qed

lemma binade_down_le: "binade_down fuel e x \<le> e"
proof (induction fuel arbitrary: e)
  case 0
  then show ?case by simp
next
  case (Suc fuel)
  from Suc [of "e - 1"] show ?case by simp
qed


lemma binade_le_52:
  assumes "x < 2 ^ 53"
  shows "binade x \<le> 52"
proof (cases "1 \<le> x")
  case True
  have "x < 2 * pow2 52" using assms by (simp add: pow2_def)
  then have "binade_up 1023 0 x \<le> 52" by (rule binade_up_le) simp
  with True show ?thesis by (simp add: binade_def)
next
  case False
  have "binade_down 1022 0 x \<le> 0" by (rule binade_down_le)
  with False show ?thesis by (simp add: binade_def)
qed

lemma rne_le: "q \<le> of_int m \<Longrightarrow> rne q \<le> m"
proof -
  assume a: "q \<le> of_int m"
  show ?thesis
  proof (cases "q = of_int m")
    case True
    then show ?thesis by (simp add: rne_def)
  next
    case False
    with a have "q < of_int m" by simp
    then have "\<lfloor>q\<rfloor> < m" by (simp add: floor_less_iff)
    then show ?thesis by (simp add: rne_def Let_def)
  qed
qed

lemma rne_ge: "of_int m \<le> q \<Longrightarrow> m \<le> rne q"
proof -
  assume "of_int m \<le> q"
  then have "m \<le> \<lfloor>q\<rfloor>" by (simp add: le_floor_iff)
  then show ?thesis by (simp add: rne_def Let_def)
qed

lemma ulp_small:
  assumes "x < 2 ^ 53"
  shows "ulp x = 1 / 2 ^ nat (52 - binade x)"
  using binade_le_52 [OF assms] by (simp add: ulp_def pow2_def)

lemma fl_le_int:
  assumes "0 \<le> x" and "x < 2 ^ 53" and "x \<le> of_int m"
  shows "fl x \<le> of_int m"
proof (cases "x = 0")
  case True
  with assms show ?thesis by (simp add: fl_def)
next
  case False
  with assms(1) have pos: "0 < x" by simp
  let ?j = "nat (52 - binade x)"
  have u: "ulp x = 1 / 2 ^ ?j" by (rule ulp_small [OF assms(2)])
  have "x / ulp x = x * 2 ^ ?j" by (simp add: u)
  also have "\<dots> \<le> of_int m * 2 ^ ?j" using assms(3) by simp
  also have "\<dots> = of_int (m * 2 ^ ?j)" by simp
  finally have "rne (x / ulp x) \<le> m * 2 ^ ?j" by (rule rne_le)
  then have "of_int (rne (x / ulp x)) \<le> (of_int (m * 2 ^ ?j) :: real)" by (simp only: of_int_le_iff)
  then have "of_int (rne (x / ulp x)) * ulp x \<le> of_int m"
    by (simp add: u field_simps)
  with pos show ?thesis by (simp add: fl_def)
qed

lemma fl_ge_int:
  assumes "0 \<le> x" and "x < 2 ^ 53" and "of_int m \<le> x"
  shows "of_int m \<le> fl x"
proof (cases "x = 0")
  case True
  with assms show ?thesis by (simp add: fl_def)
next
  case False
  with assms(1) have pos: "0 < x" by simp
  let ?j = "nat (52 - binade x)"
  have u: "ulp x = 1 / 2 ^ ?j" by (rule ulp_small [OF assms(2)])
  have "of_int (m * 2 ^ ?j) = of_int m * (2 :: real) ^ ?j" by simp
  also have "\<dots> \<le> x * 2 ^ ?j" using assms(3) by simp
  also have "\<dots> = x / ulp x" by (simp add: u)
  finally have "m * 2 ^ ?j \<le> rne (x / ulp x)" by (rule rne_ge)
  then have "(of_int (m * 2 ^ ?j) :: real) \<le> of_int (rne (x / ulp x))" by (simp only: of_int_le_iff)
  then have "of_int m \<le> of_int (rne (x / ulp x)) * ulp x"
    by (simp add: u field_simps)
  with pos show ?thesis by (simp add: fl_def)
qed

lemma fl_of_int:
  assumes "0 \<le> k" and "k < 2 ^ 53"
  shows "fl (of_int k) = of_int k"
proof -
  have "(of_int k :: real) < 2 ^ 53" using assms(2) by (metis of_int_less_iff of_int_numeral of_int_power)
  with assms(1) have "fl (of_int k) \<le> of_int k" "of_int k \<le> fl (of_int k)"
    by (simp_all add: fl_le_int fl_ge_int)
  then show ?thesis by simp
qed

lemma fl_numeral: "numeral k < (2 :: int) ^ 53 \<Longrightarrow> fl (numeral k) = numeral k"
  using fl_of_int [of "numeral k"] by simp

lemma fl_small [simp]:
  "fl 1 = 1" "fl 2 = 2" "fl 4 = 4" "fl 8 = 8" "fl 500 = 500" "fl 1000 = 1000" "fl 2000 = 2000"
  "fl 4000 = 4000" "fl 8000 = 8000" "fl 1500 = 1500" "fl 2500 = 2500" "fl 4500 = 4500"
  using fl_of_int [of 1] by (simp_all add: fl_numeral)











section \<open>Properties of the retry loop\<close>


lemma string_of_nat_60: "string_of_nat 60 = ''60''"
  by (simp add: string_of_nat.simps[of 60] string_of_nat.simps[of 6])

lemma timeout_message: "string_of_nat (REQUEST_TIMEOUT div 1000) = ''60''"
  by (simp add: REQUEST_TIMEOUT_def string_of_nat_60)

lemma try_block_frame:
  assumes "try_block body n w = (r, w')"
  shows "sent w' = sent w @ [body]" and "slept w' = slept w" and "random w' = random w"
    and "network w' = network w" and "files w' = files w" and "now w' = now w"
    and "mkdir_fault w' = mkdir_fault w" and "write_fault w' = write_fault w"
    and "drawn w \<le> drawn w'"
  using assms
  by (auto simp: try_block_def fetch_def calculateDelay_def Math_random_def Let_def
           split: prod.splits fetch_outcome.splits sum.splits if_splits)

lemma try_catch_frame:
  assumes "try_catch body n w = (r, w')"
  shows "sent w' = sent w @ [body]" and "slept w' = slept w" and "random w' = random w"
    and "network w' = network w" and "files w' = files w" and "now w' = now w"
    and "mkdir_fault w' = mkdir_fault w" and "write_fault w' = write_fault w"
    and "drawn w \<le> drawn w'"
proof -
  obtain t wt where t: "try_block body n w = (t, wt)" by (cases "try_block body n w")
  from assms t have "w' = wt" by (auto simp: try_catch_def split: try_end.splits)
  with try_block_frame [OF t]
  show "sent w' = sent w @ [body]" and "slept w' = slept w" and "random w' = random w"
    and "network w' = network w" and "files w' = files w" and "now w' = now w"
    and "mkdir_fault w' = mkdir_fault w" and "write_fault w' = write_fault w"
    and "drawn w \<le> drawn w'"
    by simp_all
qed

lemma try_catch_last_attempt:
  "try_catch body MAX_RETRIES w \<noteq> (Continue e, w')"
  by (auto simp: try_catch_def try_block_def catch_block_def fetch_def Let_def
           split: prod.splits fetch_outcome.splits sum.splits if_splits try_end.splits)

lemma backoff_eq:
  "n < MAX_RETRIES \<Longrightarrow>
   backoff n w = w\<lparr>drawn := drawn w + 1,
                   slept := slept w @ [fl (fl (real BASE_DELAY * fl (2 ^ n)) + fl (random w (drawn w) * 1000))]\<rparr>"
  by (simp add: backoff_def calculateDelay_def Math_random_def sleep_def)

lemma retry_loop_trace:
  assumes "retry_loop body a le w = (res, w')" and "a \<le> MAX_RETRIES"
  shows "\<exists>ds. a + length ds \<le> MAX_RETRIES \<and>
              sent w' = sent w @ replicate (Suc (length ds)) body \<and>
              slept w' = slept w @ ds \<and>
              (\<forall>i<length ds. \<exists>j. ds ! i = fl (fl (real BASE_DELAY * fl (2 ^ (a + i))) + fl (random w j * 1000))) \<and>
              network w' = network w \<and> random w' = random w \<and> files w' = files w"
  using assms
proof (induction body a le w arbitrary: res w' rule: retry_loop.induct)
  case (1 body attempt lastError w)
  obtain r w1 where tc: "try_catch body attempt w = (r, w1)"
    by (cases "try_catch body attempt w")
  note fr = try_catch_frame [OF tc]
  show ?case
  proof (cases r)
    case (Return imgs)
    with 1(2,3) tc have "w' = w1" by (simp add: retry_loop.simps [of body attempt])
    with fr 1(3) show ?thesis
      by (intro exI [of _ "[]"]) simp
  next
    case (Throw e)
    with 1(2,3) tc have "w' = w1" by (simp add: retry_loop.simps [of body attempt])
    with fr 1(3) show ?thesis
      by (intro exI [of _ "[]"]) simp
  next
    case (Continue e)
    with tc try_catch_last_attempt have lt: "attempt < MAX_RETRIES"
      using 1(3) by (cases "attempt = MAX_RETRIES") auto
    let ?w2 = "backoff attempt w1"
    from 1(2,3) tc Continue
    have run: "retry_loop body (attempt + 1) (Some e) ?w2 = (res, w')"
      by (simp add: retry_loop.simps [of body attempt])
    from lt have "attempt + 1 \<le> MAX_RETRIES" by simp
    from 1(1) [OF 1(3) tc [symmetric] Continue run this]
    obtain ds where ds: "attempt + 1 + length ds \<le> MAX_RETRIES"
      "sent w' = sent ?w2 @ replicate (Suc (length ds)) body"
      "slept w' = slept ?w2 @ ds"
      "\<forall>i<length ds. \<exists>j. ds ! i = fl (fl (real BASE_DELAY * fl (2 ^ (attempt + 1 + i))) + fl (random ?w2 j * 1000))"
      "network w' = network ?w2" "random w' = random ?w2" "files w' = files ?w2"
      by auto
    have w2: "?w2 = w1\<lparr>drawn := drawn w1 + 1,
                slept := slept w1 @ [fl (fl (real BASE_DELAY * fl (2 ^ attempt)) + fl (random w1 (drawn w1) * 1000))]\<rparr>"
      by (rule backoff_eq [OF lt])
    let ?d = "fl (fl (real BASE_DELAY * fl (2 ^ attempt)) + fl (random w1 (drawn w1) * 1000))"
    have w1: "sent w1 = sent w @ [body]" "slept w1 = slept w" "random w1 = random w"
      "network w1 = network w" "files w1 = files w"
      using fr by simp_all
    have "\<forall>i<length (?d # ds). \<exists>j. (?d # ds) ! i = fl (fl (real BASE_DELAY * fl (2 ^ (attempt + i))) + fl (random w j * 1000))"
    proof (intro allI impI)
      fix i assume "i < length (?d # ds)"
      show "\<exists>j. (?d # ds) ! i = fl (fl (real BASE_DELAY * fl (2 ^ (attempt + i))) + fl (random w j * 1000))"
      proof (cases i)
        case 0
        then show ?thesis using w1 by auto
      next
        case (Suc m)
        with \<open>i < length (?d # ds)\<close> have "m < length ds" by simp
        with ds(4) obtain j where "ds ! m = fl (fl (real BASE_DELAY * fl (2 ^ (attempt + 1 + m))) + fl (random ?w2 j * 1000))"
          by blast
        then show ?thesis using Suc w1 w2 by auto
      qed
    qed
    moreover have "sent w' = sent w @ replicate (Suc (length (?d # ds))) body"
      using ds(2) w1 w2 by (simp add: replicate_append_same)
    moreover have "slept w' = slept w @ (?d # ds)"
      using ds(3) w1 w2 by simp
    moreover have "attempt + length (?d # ds) \<le> MAX_RETRIES" using ds(1) by simp
    moreover have "network w' = network w \<and> random w' = random w \<and> files w' = files w"
      using ds(5,6,7) w1 w2 by simp
    ultimately show ?thesis by blast
  qed
qed


lemma Error_not_abort [simp]: "err_name (Error m) \<noteq> ''AbortError''"
  by (simp add: Error_def)

lemma try_block_rejected:
  "network w (length (sent w)) = Rejected e \<Longrightarrow>
   try_block body n w = (TryThrow e, w\<lparr>sent := sent w @ [body]\<rparr>)"
  by (simp add: try_block_def fetch_def)

lemma try_block_images:
  "network w (length (sent w)) = Resolved r \<Longrightarrow> ok r \<Longrightarrow> json_result r = Inr j \<Longrightarrow>
   collect_images [] (first_parts j) \<noteq> [] \<Longrightarrow>
   try_block body n w = (TryReturn (collect_images [] (first_parts j)), w\<lparr>sent := sent w @ [body]\<rparr>)"
  by (simp add: try_block_def fetch_def)

lemma try_block_no_images:
  "network w (length (sent w)) = Resolved r \<Longrightarrow> ok r \<Longrightarrow> json_result r = Inr j \<Longrightarrow>
   collect_images [] (first_parts j) = [] \<Longrightarrow>
   try_block body n w =
     (TryThrow (Error ''No image data returned by Gemini API''), w\<lparr>sent := sent w @ [body]\<rparr>)"
  by (simp add: try_block_def fetch_def)

lemma try_block_status_throw:
  "network w (length (sent w)) = Resolved r \<Longrightarrow> \<not> ok r \<Longrightarrow> text_result r = Inr t \<Longrightarrow>
   \<not> shouldRetry (status r) \<or> n = MAX_RETRIES \<Longrightarrow>
   try_block body n w =
     (TryThrow (Error (''Gemini API error '' @ string_of_nat (status r) @ '': '' @ t)),
      w\<lparr>sent := sent w @ [body]\<rparr>)"
  by (auto simp add: try_block_def fetch_def)

lemma try_block_status_fall:
  "network w (length (sent w)) = Resolved r \<Longrightarrow> \<not> ok r \<Longrightarrow> text_result r = Inr t \<Longrightarrow>
   shouldRetry (status r) \<Longrightarrow> n \<noteq> MAX_RETRIES \<Longrightarrow>
   try_block body n w =
     (TryFall (Error (''Gemini API error '' @ string_of_nat (status r) @ '': '' @ t)),
      w\<lparr>sent := sent w @ [body], drawn := drawn w + 1\<rparr>)"
  by (simp add: try_block_def fetch_def calculateDelay_def Math_random_def)

lemma retry_loop_returns:
  "n \<le> MAX_RETRIES \<Longrightarrow> try_block body n w = (TryReturn imgs, w1) \<Longrightarrow>
   retry_loop body n le w = (Inr imgs, w1)"
  by (simp add: retry_loop.simps [of body n] try_catch_def)

lemma retry_loop_abort:
  "n \<le> MAX_RETRIES \<Longrightarrow> try_block body n w = (TryThrow e, w1) \<Longrightarrow> err_name e = ''AbortError'' \<Longrightarrow>
   retry_loop body n le w = (Inl (Error ''Request timed out after 60 seconds''), w1)"
  by (simp add: retry_loop.simps [of body n] try_catch_def catch_block_def timeout_message)

lemma retry_loop_throw_last:
  "n = MAX_RETRIES \<Longrightarrow> try_block body n w = (TryThrow e, w1) \<Longrightarrow> err_name e \<noteq> ''AbortError'' \<Longrightarrow>
   retry_loop body n le w = (Inl e, w1)"
  by (simp add: retry_loop.simps [of body MAX_RETRIES] try_catch_def catch_block_def)

lemma retry_loop_throw_retry:
  "n < MAX_RETRIES \<Longrightarrow> try_block body n w = (TryThrow e, w1) \<Longrightarrow> err_name e \<noteq> ''AbortError'' \<Longrightarrow>
   retry_loop body n le w = retry_loop body (Suc n) (Some e) (backoff n w1)"
  by (simp add: retry_loop.simps [of body n] try_catch_def catch_block_def)

lemma retry_loop_fall:
  "n \<le> MAX_RETRIES \<Longrightarrow> try_block body n w = (TryFall e, w1) \<Longrightarrow>
   retry_loop body n le w = retry_loop body (Suc n) (Some e) (backoff n w1)"
  by (simp add: retry_loop.simps [of body n] try_catch_def)

lemma backoff_frame:
  "sent (backoff n w) = sent w" "network (backoff n w) = network w" "files (backoff n w) = files w"
  "random (backoff n w) = random w"
  by (simp_all add: backoff_def calculateDelay_def Math_random_def sleep_def)

lemma retry_loop_passes:
  assumes "retry_loop body a le w = (res, w')" and "a \<le> MAX_RETRIES"
  shows "\<exists>m. a + m \<le> MAX_RETRIES \<and> length (sent w') = length (sent w) + m + 1 \<and>
           (\<forall>i<m. \<exists>wi wi' e. length (sent wi) = length (sent w) + i \<and> network wi = network w \<and>
                       try_catch body (a + i) wi = (Continue e, wi')) \<and>
           (\<exists>wl r. length (sent wl) = length (sent w) + m \<and> network wl = network w \<and>
                    try_catch body (a + m) wl = (r, w') \<and>
                    (case r of Return imgs \<Rightarrow> res = Inr imgs | Throw e \<Rightarrow> res = Inl e
                             | Continue e \<Rightarrow> False))"
  using assms
proof (induction body a le w arbitrary: res w' rule: retry_loop.induct)
  case (1 body attempt lastError w)
  obtain r w1 where tc: "try_catch body attempt w = (r, w1)"
    by (cases "try_catch body attempt w")
  show ?case
  proof (cases r)
    case (Return imgs)
    with 1(2,3) tc have "w' = w1" "res = Inr imgs"
      by (simp_all add: retry_loop.simps [of body attempt])
    with tc Return try_catch_frame(1) [OF tc] 1(3) show ?thesis
      by (intro exI [of _ 0]) auto
  next
    case (Throw e)
    with 1(2,3) tc have "w' = w1" "res = Inl e"
      by (simp_all add: retry_loop.simps [of body attempt])
    with tc Throw try_catch_frame(1) [OF tc] 1(3) show ?thesis
      by (intro exI [of _ 0]) auto
  next
    case (Continue e)
    with tc try_catch_last_attempt have lt: "attempt < MAX_RETRIES"
      using 1(3) by (cases "attempt = MAX_RETRIES") auto
    let ?w2 = "backoff attempt w1"
    from 1(2,3) tc Continue
    have run: "retry_loop body (attempt + 1) (Some e) ?w2 = (res, w')"
      by (simp add: retry_loop.simps [of body attempt])
    from lt have "attempt + 1 \<le> MAX_RETRIES" by simp
    from 1(1) [OF 1(3) tc [symmetric] Continue run this]
    obtain m where m: "attempt + 1 + m \<le> MAX_RETRIES"
      "length (sent w') = length (sent ?w2) + m + 1"
      "\<forall>i<m. \<exists>wi wi' e. length (sent wi) = length (sent ?w2) + i \<and> network wi = network ?w2 \<and>
                       try_catch body (attempt + 1 + i) wi = (Continue e, wi')"
      "\<exists>wl r. length (sent wl) = length (sent ?w2) + m \<and> network wl = network ?w2 \<and>
                    try_catch body (attempt + 1 + m) wl = (r, w') \<and>
                    (case r of Return imgs \<Rightarrow> res = Inr imgs | Throw e \<Rightarrow> res = Inl e
                             | Continue e \<Rightarrow> False)"
      by blast
    have w2: "length (sent ?w2) = Suc (length (sent w))" "network ?w2 = network w"
      using try_catch_frame(1,4) [OF tc] by (simp_all add: backoff_frame)
    have "\<exists>wi wi' e. length (sent wi) = length (sent w) + i \<and> network wi = network w \<and>
             try_catch body (attempt + i) wi = (Continue e, wi')" if "i < Suc m" for i
    proof (cases i)
      case 0
      with tc Continue show ?thesis by auto
    next
      case (Suc j)
      with that have "j < m" by simp
      with m(3) obtain wi wi' e' where "length (sent wi) = length (sent ?w2) + j"
        "network wi = network ?w2" "try_catch body (attempt + 1 + j) wi = (Continue e', wi')"
        by blast
      with w2 Suc show ?thesis by auto
    qed
    moreover from m(4) w2
    have "\<exists>wl r. length (sent wl) = length (sent w) + Suc m \<and> network wl = network w \<and>
                    try_catch body (attempt + Suc m) wl = (r, w') \<and>
                    (case r of Return imgs \<Rightarrow> res = Inr imgs | Throw e \<Rightarrow> res = Inl e
                             | Continue e \<Rightarrow> False)"
      by auto
    moreover have "attempt + Suc m \<le> MAX_RETRIES" "length (sent w') = length (sent w) + Suc m + 1"
      using m(1,2) w2 by simp_all
    ultimately show ?thesis by blast
  qed
qed

lemma retry_loop_last_pass:
  assumes "retry_loop body 0 None w = (res, w')"
  obtains m wl p where "length (sent w') = length (sent w) + m + 1"
    and "length (sent wl) = length (sent w) + m" and "network wl = network w"
    and "try_catch body m wl = (p, w')"
    and "case p of Return imgs \<Rightarrow> res = Inr imgs | Throw e \<Rightarrow> res = Inl e | Continue e \<Rightarrow> False"
proof -
  from retry_loop_passes [OF assms] obtain m where
    "length (sent w') = length (sent w) + m + 1"
    "\<exists>wl r. length (sent wl) = length (sent w) + m \<and> network wl = network w \<and>
                    try_catch body m wl = (r, w') \<and>
                    (case r of Return imgs \<Rightarrow> res = Inr imgs | Throw e \<Rightarrow> res = Inl e
                             | Continue e \<Rightarrow> False)"
    by auto
  then show thesis using that by blast
qed

lemma try_catch_abort:
  assumes "network w (length (sent w)) = Rejected x" and "err_name x = ''AbortError''"
  shows "fst (try_catch body n w) = Throw (Error ''Request timed out after 60 seconds'')"
  using assms by (simp add: try_catch_def try_block_rejected catch_block_def timeout_message)

lemma call_runs_loop:
  assumes "callGeminiGenerate env lib request w = (res, w')" and "sent w' \<noteq> sent w"
  shows "\<exists>body. retry_loop body 0 None w = (res, w')"
  using assms by (auto simp: callGeminiGenerate_def split: if_splits sum.splits)

lemma call_request_index:
  assumes "callGeminiGenerate env lib request w = (res, w')"
    and "length (sent w) \<le> k" and "k < length (sent w')"
  obtains m body where "m \<le> MAX_RETRIES" and "length (sent w') = length (sent w) + m + 1"
    and "\<forall>i<m. \<exists>wi wi' e. length (sent wi) = length (sent w) + i \<and> network wi = network w \<and>
                       try_catch body i wi = (Continue e, wi')"
    and "\<exists>wl r. length (sent wl) = length (sent w) + m \<and> network wl = network w \<and>
                    try_catch body m wl = (r, w') \<and>
                    (case r of Return imgs \<Rightarrow> res = Inr imgs | Throw e \<Rightarrow> res = Inl e
                             | Continue e \<Rightarrow> False)"
    and "k - length (sent w) \<le> m"
proof -
  from assms have "sent w' \<noteq> sent w" by auto
  from call_runs_loop [OF assms(1) this] obtain body where "retry_loop body 0 None w = (res, w')" ..
  from retry_loop_passes [OF this] obtain m where
    m: "m \<le> MAX_RETRIES" "length (sent w') = length (sent w) + m + 1"
      "\<forall>i<m. \<exists>wi wi' e. length (sent wi) = length (sent w) + i \<and> network wi = network w \<and>
                       try_catch body i wi = (Continue e, wi')"
      "\<exists>wl r. length (sent wl) = length (sent w) + m \<and> network wl = network w \<and>
                    try_catch body m wl = (r, w') \<and>
                    (case r of Return imgs \<Rightarrow> res = Inr imgs | Throw e \<Rightarrow> res = Inl e
                             | Continue e \<Rightarrow> False)"
    by auto
  moreover from m(2) assms(3) have "k - length (sent w) \<le> m" by simp
  ultimately show thesis using that by blast
qed

lemma try_catch_retryable_status:
  assumes "network w (length (sent w)) = Resolved r" and "\<not> ok r" and "text_result r = Inr t"
    and "shouldRetry (status r)" and "n < MAX_RETRIES"
  shows "fst (try_catch body n w) =
           Continue (Error (''Gemini API error '' @ string_of_nat (status r) @ '': '' @ t))"
  using assms by (simp add: try_catch_def try_block_status_fall)

lemma try_catch_status_last:
  assumes "network w (length (sent w)) = Resolved r" and "\<not> ok r" and "text_result r = Inr t"
  shows "fst (try_catch body MAX_RETRIES w) =
           Throw (Error (''Gemini API error '' @ string_of_nat (status r) @ '': '' @ t))"
  using assms by (simp add: try_catch_def try_block_status_throw catch_block_def)

lemma try_catch_throw_message:
  assumes "try_catch body n w = (Throw e, w')"
  shows "err_message e =
     (case network w (length (sent w)) of
        Rejected x \<Rightarrow>
          if err_name x = ''AbortError''
          then ''Request timed out after '' @ string_of_nat (REQUEST_TIMEOUT div 1000) @ '' seconds''
          else err_message x
      | Resolved r \<Rightarrow>
          if ok r then
            (case json_result r of
               Inl x \<Rightarrow>
                 if err_name x = ''AbortError''
                 then ''Request timed out after '' @ string_of_nat (REQUEST_TIMEOUT div 1000) @ '' seconds''
                 else err_message x
             | Inr json \<Rightarrow> ''No image data returned by Gemini API'')
          else
            (case text_result r of
               Inl x \<Rightarrow>
                 if err_name x = ''AbortError''
                 then ''Request timed out after '' @ string_of_nat (REQUEST_TIMEOUT div 1000) @ '' seconds''
                 else err_message x
             | Inr errorText \<Rightarrow>
                 ''Gemini API error '' @ string_of_nat (status r) @ '': '' @ errorText))"
proof -
  obtain t wt where t: "try_block body n w = (t, wt)" by (cases "try_block body n w")
  with assms obtain x where x: "t = TryThrow x" "catch_block n x = Throw e"
    by (cases t) (auto simp: try_catch_def)
  have thrown: "err_message e =
      (if err_name x = ''AbortError''
       then ''Request timed out after '' @ string_of_nat (REQUEST_TIMEOUT div 1000) @ '' seconds''
       else err_message x)"
    using x(2) by (auto simp: catch_block_def Error_def split: if_splits)
  show ?thesis
  proof (cases "network w (length (sent w))")
    case (Rejected y)
    with t x(1) have "x = y" by (simp add: try_block_rejected)
    with thrown Rejected show ?thesis by simp
  next
    case (Resolved r)
    show ?thesis
    proof (cases "ok r")
      case True
      show ?thesis
      proof (cases "json_result r")
        case (Inl y)
        with t x(1) Resolved True have "x = y" by (simp add: try_block_def fetch_def)
        with thrown Resolved True Inl show ?thesis by simp
      next
        case (Inr json)
        with t x(1) Resolved True have "x = Error ''No image data returned by Gemini API''"
          by (simp add: try_block_def fetch_def Let_def split: if_splits)
        with thrown Resolved True Inr show ?thesis by (simp add: Error_def)
      qed
    next
      case False
      show ?thesis
      proof (cases "text_result r")
        case (Inl y)
        with t x(1) Resolved False have "x = y" by (simp add: try_block_def fetch_def)
        with thrown Resolved False Inl show ?thesis by simp
      next
        case (Inr errorText)
        with t x(1) Resolved False
        have "x = Error (''Gemini API error '' @ string_of_nat (status r) @ '': '' @ errorText)"
          by (simp add: try_block_def fetch_def Let_def split: if_splits prod.splits)
        with thrown Resolved False Inr show ?thesis by (simp add: Error_def)
      qed
    qed
  qed
qed

section \<open>Properties of request construction\<close>

lemma inline_parts_loop_fails:
  assumes "\<exists>img \<in> set imgs. \<exists>e. inline_part lib w img = Inl e"
  shows "\<exists>e. inline_parts_loop lib w acc imgs = Inl e"
  using assms
proof (induction imgs arbitrary: acc)
  case Nil
  then show ?case by simp
next
  case (Cons img imgs)
  show ?case
  proof (cases "inline_part lib w img")
    case (Inl e)
    then show ?thesis by simp
  next
    case (Inr p)
    with Cons.prems have "\<exists>img \<in> set imgs. \<exists>e. inline_part lib w img = Inl e" by auto
    from Cons.IH [OF this, of "acc @ [p]"] Inr show ?thesis by simp
  qed
qed

lemma inline_parts_loop_succeeds:
  assumes "\<forall>img \<in> set imgs. \<exists>p. inline_part lib w img = Inr p"
  shows "\<exists>ps. inline_parts_loop lib w acc imgs = Inr (acc @ ps) \<and> length ps = length imgs \<and>
              (\<forall>i<length imgs. inline_part lib w (imgs ! i) = Inr (ps ! i))"
  using assms
proof (induction imgs arbitrary: acc)
  case Nil
  then show ?case by simp
next
  case (Cons img imgs)
  then obtain p where p: "inline_part lib w img = Inr p" by auto
  from Cons.prems have "\<forall>img \<in> set imgs. \<exists>p. inline_part lib w img = Inr p" by simp
  from Cons.IH [OF this, of "acc @ [p]"] obtain ps where
    ps: "inline_parts_loop lib w (acc @ [p]) imgs = Inr ((acc @ [p]) @ ps)" "length ps = length imgs"
      "\<forall>i<length imgs. inline_part lib w (imgs ! i) = Inr (ps ! i)"
    by blast
  have "\<forall>i<length (img # imgs). inline_part lib w ((img # imgs) ! i) = Inr ((p # ps) ! i)"
    using p ps(3) by (auto simp: nth_Cons split: nat.splits)
  with p ps(1,2) show ?case
    by (intro exI [of _ "p # ps"]) simp
qed

lemma inline_part_unresolvable:
  assumes "\<not> truthy (dataBase64 img)"
    and "\<not> truthy (path img) \<or> (\<exists>e. readFile w (resolve lib (the (path img))) = Inl e)"
  shows "\<exists>e. inline_part lib w img = Inl e"
  using assms
  by (auto simp: inline_part_def fileToBase64_def Let_def split: sum.splits)

lemma inline_part_resolvable:
  assumes "truthy (dataBase64 img) \<or>
           (truthy (path img) \<and> (\<exists>d. fileToBase64 lib w (the (path img)) = Inr d \<and> d \<noteq> []))"
  shows "\<exists>d. inline_part lib w img =
               Inr (Inline_data (case mimeType img of None \<Rightarrow> ''image/png'' | Some m \<Rightarrow> m) d) \<and>
             (if truthy (dataBase64 img) then dataBase64 img = Some d
              else fileToBase64 lib w (the (path img)) = Inr d)"
proof (cases "truthy (dataBase64 img)")
  case True
  then obtain d where "dataBase64 img = Some d" "d \<noteq> []" by (cases "dataBase64 img") auto
  then show ?thesis by (simp add: inline_part_def)
next
  case False
  with assms obtain d where "truthy (path img)" "fileToBase64 lib w (the (path img)) = Inr d" "d \<noteq> []"
    by auto
  with False show ?thesis by (simp add: inline_part_def)
qed

lemma to_parts_resolvable:
  assumes "\<forall>img \<in> set imgs. truthy (dataBase64 img) \<or>
             (truthy (path img) \<and> (\<exists>d. fileToBase64 lib w (the (path img)) = Inr d \<and> d \<noteq> []))"
  shows "\<exists>ps. toInlineDataParts lib w (Some imgs) = Inr ps \<and> length ps = length imgs \<and>
           (\<forall>i<length imgs. \<exists>d.
              ps ! i = Inline_data (case mimeType (imgs ! i) of None \<Rightarrow> ''image/png'' | Some m \<Rightarrow> m) d \<and>
              (if truthy (dataBase64 (imgs ! i)) then dataBase64 (imgs ! i) = Some d
               else fileToBase64 lib w (the (path (imgs ! i))) = Inr d))"
proof -
  have each: "\<exists>d. inline_part lib w img =
               Inr (Inline_data (case mimeType img of None \<Rightarrow> ''image/png'' | Some m \<Rightarrow> m) d) \<and>
             (if truthy (dataBase64 img) then dataBase64 img = Some d
              else fileToBase64 lib w (the (path img)) = Inr d)" if "img \<in> set imgs" for img
    using assms that by (intro inline_part_resolvable) blast
  then have "\<forall>img \<in> set imgs. \<exists>p. inline_part lib w img = Inr p" by blast
  from inline_parts_loop_succeeds [OF this, of "[]"] obtain ps where
    ps: "inline_parts_loop lib w [] imgs = Inr ps" "length ps = length imgs"
      "\<forall>i<length imgs. inline_part lib w (imgs ! i) = Inr (ps ! i)"
    by auto
  have "\<exists>d. ps ! i = Inline_data (case mimeType (imgs ! i) of None \<Rightarrow> ''image/png'' | Some m \<Rightarrow> m) d \<and>
              (if truthy (dataBase64 (imgs ! i)) then dataBase64 (imgs ! i) = Some d
               else fileToBase64 lib w (the (path (imgs ! i))) = Inr d)" if "i < length imgs" for i
  proof -
    from that have "imgs ! i \<in> set imgs" by simp
    from each [OF this] ps(3) that show ?thesis by auto
  qed
  moreover have "toInlineDataParts lib w (Some imgs) = Inr ps"
    using ps(1,2) by (cases imgs) (simp_all add: toInlineDataParts_def)
  ultimately show ?thesis using ps(2) by blast
qed

section \<open>Properties of saving\<close>

lemma collision_loop_least:
  assumes "\<not> access w (join lib dir (nm @ ''_'' @ string_of_nat k @ ext))"
    and "\<forall>i. j \<le> i \<and> i < k \<longrightarrow> access w (join lib dir (nm @ ''_'' @ string_of_nat i @ ext))"
    and "j \<le> k"
  shows "collision_loop lib w dir nm ext (join lib dir (nm @ ''_'' @ string_of_nat j @ ext)) j =
           Some (join lib dir (nm @ ''_'' @ string_of_nat k @ ext))"
  using assms
proof (induction "k - j" arbitrary: j)
  case 0
  then have "j = k" by simp
  with 0 show ?case by (simp add: collision_loop.simps)
next
  case (Suc d)
  then have lt: "j < k" by simp
  with Suc.prems have ex: "access w (join lib dir (nm @ ''_'' @ string_of_nat j @ ext))" by simp
  have "d = k - Suc j" using Suc.hyps(2) by simp
  moreover have "\<forall>i. Suc j \<le> i \<and> i < k \<longrightarrow> access w (join lib dir (nm @ ''_'' @ string_of_nat i @ ext))"
    using Suc.prems(2) by simp
  moreover have "Suc j \<le> k" using lt by simp
  ultimately have "collision_loop lib w dir nm ext
      (join lib dir (nm @ ''_'' @ string_of_nat (Suc j) @ ext)) (Suc j) =
      Some (join lib dir (nm @ ''_'' @ string_of_nat k @ ext))"
    using Suc.hyps(1) Suc.prems(1) by blast
  with ex show ?case
    by (subst collision_loop.simps) simp
qed

lemma collision_loop_free:
  "\<not> access w p \<Longrightarrow> collision_loop lib w dir nm ext p c = Some p"
  by (subst collision_loop.simps) simp

lemma collision_loop_taken:
  assumes "access w p"
    and "\<not> access w (join lib dir (nm @ ''_'' @ string_of_nat k @ ext))" and "0 < k"
    and "\<forall>i. 0 < i \<and> i < k \<longrightarrow> access w (join lib dir (nm @ ''_'' @ string_of_nat i @ ext))"
  shows "collision_loop lib w dir nm ext p 0 = Some (join lib dir (nm @ ''_'' @ string_of_nat k @ ext))"
proof -
  have "collision_loop lib w dir nm ext (join lib dir (nm @ ''_'' @ string_of_nat 1 @ ext)) 1 =
           Some (join lib dir (nm @ ''_'' @ string_of_nat k @ ext))"
    using assms(2,3,4) by (intro collision_loop_least) auto
  with assms(1) show ?thesis
    by (subst collision_loop.simps) simp
qed

lemma collision_loop_result:
  assumes "collision_loop lib w dir nm ext p c = Some q"
  shows "\<not> access w q"
  by (rule collision_loop.raw_induct
        [where P = "\<lambda>lib w dir nm ext p c q. \<not> access w q", OF _ assms])
     (auto split: if_splits)

lemma mkdir_files:
  assumes "mkdir dir w = Inr w1"
  shows "files w p = Some e \<Longrightarrow> files w1 p = Some e"
    and "files w1 p = None \<Longrightarrow> files w p = None"
    and "files w1 p = Some (File b) \<Longrightarrow> files w p = Some (File b)"
    and "mkdir_fault w1 = mkdir_fault w" and "write_fault w1 = write_fault w"
  using assms
  by (auto simp: mkdir_def split: option.splits if_splits)

lemma mkdir_ancestors:
  assumes "mkdir dir w = Inr w1" and "q \<in> set (ancestors dir)"
  shows "files w1 q \<noteq> None" and "\<not> is_file w1 q"
proof -
  from assms(1) have nofile: "\<not> list_ex (is_file w) (ancestors dir)"
    and w1: "files w1 = (\<lambda>p. if p \<in> set (ancestors dir) \<and> files w p = None
                                 then Some Directory else files w p)"
    by (auto simp: mkdir_def split: option.splits if_splits)
  from nofile assms(2) have nf: "\<not> is_file w q" by (auto simp: list_ex_iff)
  from w1 assms(2) show "files w1 q \<noteq> None" by auto
  from w1 assms(2) nf show "\<not> is_file w1 q" by (auto simp: is_file_def)
qed

lemma writeFile_files:
  assumes "writeFile p buffer w = Inr w2"
  shows "files w2 = (files w)(p \<mapsto> File buffer)"
    and "mkdir_fault w2 = mkdir_fault w" and "write_fault w2 = write_fault w"
  using assms
  by (auto simp: writeFile_def split: option.splits fs_entry.splits)

lemma writeFile_fresh:
  assumes "\<not> access w p" and "write_fault w p = None"
  shows "writeFile p buffer w = Inr (w\<lparr>files := (files w)(p \<mapsto> File buffer)\<rparr>)"
  using assms by (simp add: writeFile_def access_def)

text \<open>
  The table is read at a key in lower case, and of the names that it inherits only
  \<open>constructor\<close> and \<open>__proto__\<close> are in lower case. For these two the extension is not a
  string, and a hint without extension is not saved: \<open>basename\<close> throws before the
  directory is made.
\<close>

lemma toLowerCase_no_capital:
  "c \<in> set (toLowerCase s) \<Longrightarrow> \<not> (65 \<le> (of_char c :: nat) \<and> (of_char c :: nat) \<le> 90)"
  by (auto simp: toLowerCase_def)

lemma inherited_lower:
  "inherited (toLowerCase s) =
     (if toLowerCase s = ''__proto__'' then Some Object_prototype
      else if toLowerCase s = ''constructor'' then Some (Function ''Object'')
      else None)"
proof -
  have "toLowerCase s \<noteq> t" if "c \<in> set t" "65 \<le> (of_char c :: nat) \<and> (of_char c :: nat) \<le> 90" for t c
    using that toLowerCase_no_capital [of c s] by auto
  note no = this [of "CHR ''G''"] this [of "CHR ''S''"] this [of "CHR ''O''"] this [of "CHR ''P''"]
    this [of "CHR ''I''"] this [of "CHR ''L''"]
  have "toLowerCase s \<notin> set [''__defineGetter__'', ''__defineSetter__'', ''hasOwnProperty'',
                            ''__lookupGetter__'', ''__lookupSetter__'', ''isPrototypeOf'',
                            ''propertyIsEnumerable'', ''toString'', ''valueOf'', ''toLocaleString'']"
    by (simp add: no)
  then show ?thesis by (simp only: inherited_def if_False)
qed

lemma detectedExt_table:
  "detectedExt mime =
     (if toLowerCase mime = ''image/png'' then Str ''.png''
      else if toLowerCase mime = ''image/jpeg'' \<or> toLowerCase mime = ''image/jpg'' then Str ''.jpg''
      else if toLowerCase mime = ''image/webp'' then Str ''.webp''
      else if toLowerCase mime = ''image/gif'' then Str ''.gif''
      else if toLowerCase mime = ''__proto__'' then Object_prototype
      else if toLowerCase mime = ''constructor'' then Function ''Object''
      else Str ''.png'')"
  by (simp add: detectedExt_def mimeToExt_def inherited_lower)

lemma extension_cases:
  "extension lib mime hint =
     (if extname lib hint \<noteq> [] then Str (extname lib hint) else detectedExt mime)"
  "basePath lib mime hint =
     (if extname lib hint \<noteq> [] then hint else hint @ to_string (detectedExt mime))"
  by (simp_all add: extension_def basePath_def providedExt_def)

lemma detectedExt_string:
  "toLowerCase mime \<noteq> ''constructor'' \<Longrightarrow> toLowerCase mime \<noteq> ''__proto__'' \<Longrightarrow>
   \<exists>e. detectedExt mime = Str e"
  by (simp add: detectedExt_table)

lemma save_throws:
  assumes "hint \<noteq> []" and "extname lib hint = []"
    and "toLowerCase mime = ''constructor'' \<or> toLowerCase mime = ''__proto__''"
  shows "maybeSaveImage lib b64 mime (Some hint) w =
           Some (Inl (Error (''Failed to save image: ''
                             @ err_message (basename_throws lib (detectedExt mime)))), w)"
  using assms by (auto simp: maybeSaveImage_def extension_cases detectedExt_table)

lemma maybeSaveImage_written:
  assumes "maybeSaveImage lib b64 mime target w = Some (Inr (Some p), w2)"
  shows "\<exists>w1. mkdir (dirname lib (resolve lib (basePath lib mime (the target)))) w = Inr w1 \<and>
              \<not> access w1 p \<and> files w2 = (files w1)(p \<mapsto> File (fromBase64 lib b64))"
  using assms
  by (auto simp: maybeSaveImage_def Let_def writeFile_files
           split: if_splits sum.splits option.splits js_value.splits dest: collision_loop_result)

lemma maybeSaveImage_keeps:
  assumes "maybeSaveImage lib b64 mime target w = Some (Inr (Some p), w2)"
  shows "files w p = None \<and> (\<forall>q e. files w q = Some e \<longrightarrow> files w2 q = Some e)"
proof -
  from maybeSaveImage_written [OF assms] obtain w1 where
    w1: "mkdir (dirname lib (resolve lib (basePath lib mime (the target)))) w = Inr w1"
      "\<not> access w1 p" "files w2 = (files w1)(p \<mapsto> File (fromBase64 lib b64))"
    by blast
  from w1(2) have none: "files w1 p = None" by (simp add: access_def)
  with mkdir_files(2) [OF w1(1)] have "files w p = None" by simp
  moreover have "files w2 q = Some e" if "files w q = Some e" for q e
  proof -
    from mkdir_files(1) [OF w1(1) that] have "files w1 q = Some e" .
    with none have "q \<noteq> p" by auto
    with w1(3) \<open>files w1 q = Some e\<close> show ?thesis by simp
  qed
  ultimately show ?thesis by blast
qed

lemma save_unfold:
  assumes "hint \<noteq> []"
    and "mkdir (dirname lib (resolve lib (basePath lib mime hint))) w = Inr w1"
    and "collision_loop lib w1 (dirname lib (resolve lib (basePath lib mime hint)))
           (basename lib (resolve lib (basePath lib mime hint)) ext)
           ext (resolve lib (basePath lib mime hint)) 0 = Some p"
    and "write_fault w p = None"
    and "extension lib mime hint = Str ext"
  shows "maybeSaveImage lib b64 mime (Some hint) w =
           Some (Inr (Some p), w1\<lparr>files := (files w1)(p \<mapsto> File (fromBase64 lib b64))\<rparr>)"
proof -
  from collision_loop_result [OF assms(3)] have "\<not> access w1 p" .
  moreover from assms(4) mkdir_files(5) [OF assms(2)] have "write_fault w1 p = None" by simp
  ultimately have "writeFile p (fromBase64 lib b64) w1 =
      Inr (w1\<lparr>files := (files w1)(p \<mapsto> File (fromBase64 lib b64))\<rparr>)"
    by (rule writeFile_fresh)
  with assms(1,2,3,5) show ?thesis by (simp add: maybeSaveImage_def Let_def)
qed

lemma save_free:
  assumes "hint \<noteq> []"
    and "mkdir (dirname lib (resolve lib (basePath lib mime hint))) w = Inr w1"
    and "\<not> access w1 (resolve lib (basePath lib mime hint))"
    and "write_fault w (resolve lib (basePath lib mime hint)) = None"
    and "extension lib mime hint = Str ext"
  shows "maybeSaveImage lib b64 mime (Some hint) w =
           Some (Inr (Some (resolve lib (basePath lib mime hint))),
                 w1\<lparr>files := (files w1)(resolve lib (basePath lib mime hint)
                                          \<mapsto> File (fromBase64 lib b64))\<rparr>)"
  using assms by (intro save_unfold [where ext = ext]) (simp_all add: collision_loop_free)

lemma save_collision:
  assumes "hint \<noteq> []"
    and "mkdir (dirname lib (resolve lib (basePath lib mime hint))) w = Inr w1"
    and "access w1 (resolve lib (basePath lib mime hint))"
    and "0 < k"
    and "\<not> access w1 (join lib (dirname lib (resolve lib (basePath lib mime hint)))
            (basename lib (resolve lib (basePath lib mime hint)) ext
             @ ''_'' @ string_of_nat k @ ext))"
    and "\<forall>i. 0 < i \<and> i < k \<longrightarrow>
           access w1 (join lib (dirname lib (resolve lib (basePath lib mime hint)))
            (basename lib (resolve lib (basePath lib mime hint)) ext
             @ ''_'' @ string_of_nat i @ ext))"
    and "\<forall>p. write_fault w p = None"
    and "extension lib mime hint = Str ext"
  shows "maybeSaveImage lib b64 mime (Some hint) w =
           Some (Inr (Some (join lib (dirname lib (resolve lib (basePath lib mime hint)))
            (basename lib (resolve lib (basePath lib mime hint)) ext
             @ ''_'' @ string_of_nat k @ ext))),
                 w1\<lparr>files := (files w1)
                   (join lib (dirname lib (resolve lib (basePath lib mime hint)))
                     (basename lib (resolve lib (basePath lib mime hint)) ext
                      @ ''_'' @ string_of_nat k @ ext)
                    \<mapsto> File (fromBase64 lib b64))\<rparr>)"
  using assms by (intro save_unfold [where ext = ext]) (simp_all add: collision_loop_taken)

lemma mkdir_again:
  assumes "mkdir dir w = Inr w1" and "p \<notin> set (ancestors dir)"
  shows "mkdir dir (w1\<lparr>files := (files w1)(p \<mapsto> e)\<rparr>) = Inr (w1\<lparr>files := (files w1)(p \<mapsto> e)\<rparr>)"
proof -
  let ?w2 = "w1\<lparr>files := (files w1)(p \<mapsto> e)\<rparr>"
  from assms(1) have "mkdir_fault w dir = None" by (auto simp: mkdir_def split: option.splits)
  with mkdir_files(4) [OF assms(1)] have fault: "mkdir_fault ?w2 dir = None" by simp
  have anc: "files ?w2 q \<noteq> None \<and> \<not> is_file ?w2 q" if "q \<in> set (ancestors dir)" for q
  proof -
    from that assms(2) have "q \<noteq> p" by auto
    with mkdir_ancestors [OF assms(1) that] show ?thesis by (simp add: is_file_def)
  qed
  then have "\<not> list_ex (is_file ?w2) (ancestors dir)" by (auto simp: list_ex_iff)
  moreover have "(\<lambda>q. if q \<in> set (ancestors dir) \<and> files ?w2 q = None
                            then Some Directory else files ?w2 q) = files ?w2"
  proof (rule ext)
    fix q
    show "(if q \<in> set (ancestors dir) \<and> files ?w2 q = None
           then Some Directory else files ?w2 q) = files ?w2 q"
      using anc [of q] by (cases "q \<in> set (ancestors dir)") (auto split: if_splits)
  qed
  ultimately show ?thesis using fault by (simp add: mkdir_def)
qed

lemma save_twice:
  assumes "hint \<noteq> []"
    and "mkdir (dirname lib (resolve lib (basePath lib mime hint))) w = Inr w1"
    and "\<not> access w1 (resolve lib (basePath lib mime hint))"
    and "\<not> access w1 (join lib (dirname lib (resolve lib (basePath lib mime hint)))
            (basename lib (resolve lib (basePath lib mime hint)) ext
             @ ''_'' @ string_of_nat 1 @ ext))"
    and "join lib (dirname lib (resolve lib (basePath lib mime hint)))
            (basename lib (resolve lib (basePath lib mime hint)) ext
             @ ''_'' @ string_of_nat 1 @ ext)
         \<noteq> resolve lib (basePath lib mime hint)"
    and "\<forall>p. write_fault w p = None"
    and "extension lib mime hint = Str ext"
  shows "\<exists>w2 w3.
           maybeSaveImage lib b64 mime (Some hint) w =
             Some (Inr (Some (resolve lib (basePath lib mime hint))), w2) \<and>
           maybeSaveImage lib b64' mime (Some hint) w2 =
             Some (Inr (Some (join lib (dirname lib (resolve lib (basePath lib mime hint)))
                (basename lib (resolve lib (basePath lib mime hint)) ext
                 @ ''_'' @ string_of_nat 1 @ ext))), w3) \<and>
           files w3 (resolve lib (basePath lib mime hint)) = Some (File (fromBase64 lib b64))"
proof -
  let ?resolved = "resolve lib (basePath lib mime hint)"
  let ?dir = "dirname lib ?resolved"
  let ?one = "join lib ?dir (basename lib ?resolved ext
             @ ''_'' @ string_of_nat 1 @ ext)"
  let ?w2 = "w1\<lparr>files := (files w1)(?resolved \<mapsto> File (fromBase64 lib b64))\<rparr>"
  let ?w3 = "?w2\<lparr>files := (files ?w2)(?one \<mapsto> File (fromBase64 lib b64'))\<rparr>"
  from assms(6) have wf: "write_fault w ?resolved = None" by simp
  have first: "maybeSaveImage lib b64 mime (Some hint) w = Some (Inr (Some ?resolved), ?w2)"
    by (rule save_free [OF assms(1,2,3) wf assms(7)])
  have "?resolved \<notin> set (ancestors ?dir)"
  proof
    assume "?resolved \<in> set (ancestors ?dir)"
    from mkdir_ancestors(1) [OF assms(2) this] assms(3) show False by (simp add: access_def)
  qed
  from mkdir_again [OF assms(2) this] have mk2: "mkdir ?dir ?w2 = Inr ?w2" .
  have taken: "access ?w2 ?resolved" by (simp add: access_def)
  have free: "\<not> access ?w2 ?one" using assms(4,5) by (simp add: access_def)
  have wf2: "\<forall>p. write_fault ?w2 p = None"
    using assms(6) mkdir_files(5) [OF assms(2)] by simp
  have "maybeSaveImage lib b64' mime (Some hint) ?w2 = Some (Inr (Some ?one), ?w3)"
    by (rule save_collision [OF assms(1) mk2 taken _ free _ wf2 assms(7)]) simp_all
  moreover have "files ?w3 ?resolved = Some (File (fromBase64 lib b64))"
    using assms(5) by simp
  ultimately show ?thesis using first by blast
qed

section \<open>Properties of the handlers\<close>







section \<open>Runs of the pipeline in the example worlds\<close>

lemma configured_key: "GEMINI_API_KEY configured = ''secret''" "trim ''secret'' = ''secret''"
  by (simp_all add: configured_def GEMINI_API_KEY_def trim_def js_whitespace_def)

lemma string_of_nat_503: "string_of_nat 503 = ''503''"
  by (simp add: string_of_nat.simps [of 503] string_of_nat.simps [of 50] string_of_nat.simps [of 5])

lemma always_503_run:
  "callGeminiGenerate configured lib cat_request (fresh_world (\<lambda>k. reply 503 [] ''overloaded'')) =
     (Inl (Error ''Gemini API error 503: overloaded''),
      (fresh_world (\<lambda>k. reply 503 [] ''overloaded''))
        \<lparr>sent := [ [Text ''a cat''], [Text ''a cat''], [Text ''a cat''], [Text ''a cat''] ],
         drawn := 6, slept := [1500, 2500, 4500]\<rparr>)"
  by (simp add: callGeminiGenerate_def configured_key cat_request_def toInlineDataParts_def
        retry_loop_fall try_block_status_fall retry_loop_throw_last try_block_status_throw
        fresh_world_def reply_def ok_def shouldRetry_def MAX_RETRIES_def backoff_def
        calculateDelay_def Math_random_def sleep_def BASE_DELAY_def string_of_nat_503)


lemma string_of_nat_400: "string_of_nat 400 = ''400''"
  by (simp add: string_of_nat.simps [of 400] string_of_nat.simps [of 40] string_of_nat.simps [of 4])

lemma string_of_nat_599: "string_of_nat 599 = ''599''"
  by (simp add: string_of_nat.simps [of 599] string_of_nat.simps [of 59] string_of_nat.simps [of 5])

lemma picture_images:
  "collect_images [] (first_parts \<lparr>candidates = Some [\<lparr>content = Some \<lparr>parts = Some [picture]\<rparr>\<rparr>]\<rparr>) =
     [\<lparr>imageBase64 = ''QUJD'', image_mimeType = ''image/jpeg''\<rparr>]"
  by (simp add: first_parts_def picture_def)

lemma caption_images:
  "collect_images [] (first_parts \<lparr>candidates = Some [\<lparr>content = Some \<lparr>parts = Some [caption]\<rparr>\<rparr>]\<rparr>) = []"
  by (simp add: first_parts_def caption_def)

lemma no_parts_images:
  "collect_images [] (first_parts \<lparr>candidates = Some [\<lparr>content = Some \<lparr>parts = Some []\<rparr>\<rparr>]\<rparr>) = []"
  by (simp add: first_parts_def)

lemmas run_simps =
  callGeminiGenerate_def configured_key cat_request_def toInlineDataParts_def
  retry_loop_returns retry_loop_abort retry_loop_throw_last retry_loop_throw_retry retry_loop_fall
  try_block_rejected try_block_images try_block_no_images try_block_status_throw try_block_status_fall
  fresh_world_def reply_def then_picture_def ok_def shouldRetry_def MAX_RETRIES_def backoff_def
  calculateDelay_def Math_random_def sleep_def BASE_DELAY_def AbortError_def
  picture_images caption_images no_parts_images

lemma timeout_run:
  "callGeminiGenerate configured lib cat_request (fresh_world (then_picture (Rejected AbortError))) =
   (Inl (Error ''Request timed out after 60 seconds''),
    (fresh_world (then_picture (Rejected AbortError)))\<lparr>sent := [ [Text ''a cat''] ]\<rparr>)"
  by (simp add: run_simps)

lemma busy_then_picture_run:
  "callGeminiGenerate configured lib cat_request
        (fresh_world (then_picture (reply 503 [] ''overloaded''))) =
      (Inr [\<lparr>imageBase64 = ''QUJD'', image_mimeType = ''image/jpeg''\<rparr>],
       (fresh_world (then_picture (reply 503 [] ''overloaded'')))
         \<lparr>sent := [ [Text ''a cat''], [Text ''a cat''] ], drawn := 2, slept := [1500]\<rparr>)"
  by (simp add: run_simps)

lemma always_caption_run:
  "callGeminiGenerate configured lib cat_request (fresh_world (\<lambda>k. reply 200 [caption] ''{}'')) =
     (Inl (Error ''No image data returned by Gemini API''),
      (fresh_world (\<lambda>k. reply 200 [caption] ''{}''))
        \<lparr>sent := [ [Text ''a cat''], [Text ''a cat''], [Text ''a cat''], [Text ''a cat''] ],
         drawn := 3, slept := [1500, 2500, 4500]\<rparr>)"
  by (simp add: run_simps)

lemma always_400_run:
  "callGeminiGenerate configured lib cat_request
     (fresh_world (\<lambda>k. reply 400 [] (replicate 600 CHR ''x''))) =
     (Inl (Error (''Gemini API error 400: '' @ replicate 600 CHR ''x'')),
      (fresh_world (\<lambda>k. reply 400 [] (replicate 600 CHR ''x'')))
        \<lparr>sent := [ [Text ''a cat''], [Text ''a cat''], [Text ''a cat''], [Text ''a cat''] ],
         drawn := 3, slept := [1500, 2500, 4500]\<rparr>)"
  by (simp add: run_simps string_of_nat_400)

lemma input_file_base64:
  "fileToBase64 (posix ''/home/u'') (with_input_file (fresh_world net)) ''in.png'' = Inr ''QUJD''"
proof -
  have "posix_resolve ''/home/u'' ''in.png'' = ''/home/u/in.png''" by code_simp
  moreover have "base64_encode [65, 66, 67] = ''QUJD''" by code_simp
  ultimately show ?thesis
    by (simp add: fileToBase64_def posix_def readFile_def with_input_file_def fresh_world_def)
qed

lemma blend_run:
  "callGeminiGenerate configured (posix ''/home/u'') blend_request
     (with_input_file (fresh_world (\<lambda>k. reply 200 [picture] []))) =
   (Inr [\<lparr>imageBase64 = ''QUJD'', image_mimeType = ''image/jpeg''\<rparr>],
    (with_input_file (fresh_world (\<lambda>k. reply 200 [picture] [])))
      \<lparr>sent := [ [Text ''blend them'', Inline_data ''image/jpeg'' ''AAAA'',
                 Inline_data ''image/png'' ''QUJD''] ]\<rparr>)"
proof -
  have "toInlineDataParts (posix ''/home/u'') (with_input_file (fresh_world (\<lambda>k. reply 200 [picture] [])))
          (Some two_inputs) =
        Inr [Inline_data ''image/jpeg'' ''AAAA'', Inline_data ''image/png'' ''QUJD'']"
    by (simp add: toInlineDataParts_def two_inputs_def inline_part_def input_file_base64)
  then show ?thesis
    by (simp add: callGeminiGenerate_def configured_key blend_request_def
          retry_loop_returns try_block_images picture_images
          with_input_file_def fresh_world_def reply_def ok_def MAX_RETRIES_def)
qed

section \<open>Paths and directories of the example worlds\<close>

lemma posix_out_png:
  "posix_extname ''./out.png'' = ''.png''"
  "posix_resolve ''/home/u'' ''./out.png'' = ''/home/u/out.png''"
  "posix_dirname ''/home/u/out.png'' = ''/home/u''"
  "posix_basename ''/home/u/out.png'' ''.png'' = ''out''"
  "posix_join ''/home/u'' ''out_1.png'' = ''/home/u/out_1.png''"
  "posix_join ''/home/u'' ''out_2.png'' = ''/home/u/out_2.png''"
  by code_simp+

lemma posix_out_jpg:
  "posix_extname ''./out'' = []"
  "posix_resolve ''/home/u'' ''./out.jpg'' = ''/home/u/out.jpg''"
  "posix_dirname ''/home/u/out.jpg'' = ''/home/u''"
  "posix_basename ''/home/u/out.jpg'' ''.jpg'' = ''out''"
  "posix_join ''/home/u'' ''out_1.jpg'' = ''/home/u/out_1.jpg''"
  by code_simp+

lemma small_numbers: "string_of_nat 1 = ''1''" "string_of_nat 2 = ''2''" "string_of_nat (Suc 0) = ''1''"
  by code_simp+

lemma detected_jpeg: "detectedExt ''image/jpeg'' = Str ''.jpg''"
  by (simp add: detectedExt_def mimeToExt_def toLowerCase_def)

lemma home_ancestors: "ancestors ''/home/u'' = [''/home'', ''/home/u'']"
  by (simp add: ancestors_def)

lemma posix_fields:
  "resolve (posix cwd) = posix_resolve cwd" "extname (posix cwd) = posix_extname"
  "dirname (posix cwd) = posix_dirname" "basename (posix cwd) = posix_basename"
  "join (posix cwd) = posix_join" "toBase64 (posix cwd) = base64_encode"
  "fromBase64 (posix cwd) = base64_decode"
  "basename_throws (posix cwd) = ERR_INVALID_ARG_TYPE ''suffix''"
  by (simp_all add: posix_def)

lemma out_png_paths:
  "extension (posix ''/home/u'') ''image/jpeg'' ''./out.png'' = Str ''.png''"
  "basePath (posix ''/home/u'') ''image/jpeg'' ''./out.png'' = ''./out.png''"
  by (simp_all add: extension_def basePath_def providedExt_def posix_fields posix_out_png)

lemma out_jpg_paths:
  "extension (posix ''/home/u'') ''image/jpeg'' ''./out'' = Str ''.jpg''"
  "basePath (posix ''/home/u'') ''image/jpeg'' ''./out'' = ''./out.jpg''"
  by (simp_all add: extension_def basePath_def providedExt_def posix_fields posix_out_jpg detected_jpeg)

lemma mkdir_home:
  assumes "mkdir_fault w ''/home/u'' = None" and "\<not> is_file w ''/home''" and "\<not> is_file w ''/home/u''"
  shows "mkdir ''/home/u'' w =
           Inr (w\<lparr>files := (\<lambda>p. if p \<in> set [''/home'', ''/home/u''] \<and> files w p = None
                                 then Some Directory else files w p)\<rparr>)"
  using assms by (simp add: mkdir_def home_ancestors)

lemma fresh_files: "files (fresh_world net) p = None" "mkdir_fault (fresh_world net) p = None"
  "write_fault (fresh_world net) p = None"
  by (simp_all add: fresh_world_def)

lemma fresh_mkdir_home:
  "mkdir ''/home/u'' (fresh_world net) =
     Inr ((fresh_world net)\<lparr>files := (\<lambda>p. if p \<in> set [''/home'', ''/home/u''] \<and> files (fresh_world net) p = None
                                 then Some Directory else files (fresh_world net) p)\<rparr>)"
  by (rule mkdir_home) (simp_all add: fresh_files is_file_def)

lemma crowded_files:
  "files crowded p =
     (if p = ''/home/u/out_1.png'' \<or> p = ''/home/u/out.png'' then Some (File [1, 2, 3]) else None)"
  "mkdir_fault crowded p = None" "write_fault crowded p = None"
  by (simp_all add: crowded_def with_file_def fresh_world_def)

lemma crowded_mkdir_home:
  "mkdir ''/home/u'' crowded =
     Inr (crowded\<lparr>files := (\<lambda>p. if p \<in> set [''/home'', ''/home/u''] \<and> files crowded p = None
                                 then Some Directory else files crowded p)\<rparr>)"
  by (rule mkdir_home) (simp_all add: crowded_files is_file_def)





lemma synthesized_name:
  "generateDefaultFileName configured ''generate'' ''image/jpeg'' (fresh_world net) =
     Inr ''/home/u/Downloads/gemini-images/generate-2025-01-02-03-04-05-678Z.jpg''"
proof -
  have "split_on CHR ''T'' (replace_colon_dot ''2025-01-02T03:04:05.678Z'') =
          [''2025-01-02'', ''03-04-05-678Z'']" by code_simp
  moreover have "split_on CHR ''.'' ''03-04-05-678Z'' = [''03-04-05-678Z'']" by code_simp
  moreover have "expandedDir configured = ''/home/u/Downloads/gemini-images''"
    by (simp add: expandedDir_def DEFAULT_SAVE_DIR_def home_directory_def configured_def)
  ultimately show ?thesis
    by (simp add: generateDefaultFileName_def fresh_world_def)
qed

lemma posix_synthesized:
  "posix_extname ''/home/u/Downloads/gemini-images/generate-2025-01-02-03-04-05-678Z.jpg'' = ''.jpg''"
  "posix_resolve ''/home/u'' ''/home/u/Downloads/gemini-images/generate-2025-01-02-03-04-05-678Z.jpg''
     = ''/home/u/Downloads/gemini-images/generate-2025-01-02-03-04-05-678Z.jpg''"
  "posix_dirname ''/home/u/Downloads/gemini-images/generate-2025-01-02-03-04-05-678Z.jpg''
     = ''/home/u/Downloads/gemini-images''"
  "posix_basename ''/home/u/Downloads/gemini-images/generate-2025-01-02-03-04-05-678Z.jpg'' ''.jpg''
     = ''generate-2025-01-02-03-04-05-678Z''"
  "posix_join ''/home/u/Downloads/gemini-images'' ''generate-2025-01-02-03-04-05-678Z_1.jpg''
     = ''/home/u/Downloads/gemini-images/generate-2025-01-02-03-04-05-678Z_1.jpg''"
  by code_simp+

lemma images_ancestors:
  "ancestors ''/home/u/Downloads/gemini-images'' =
     [''/home'', ''/home/u'', ''/home/u/Downloads'', ''/home/u/Downloads/gemini-images'']"
  by (simp add: ancestors_def)

lemma fresh_mkdir_images:
  "mkdir ''/home/u/Downloads/gemini-images'' (fresh_world net) =
     Inr ((fresh_world net)\<lparr>files := (\<lambda>p. if p \<in> set (ancestors ''/home/u/Downloads/gemini-images'')
                                               \<and> files (fresh_world net) p = None
                                            then Some Directory else files (fresh_world net) p)\<rparr>)"
  by (simp add: mkdir_def images_ancestors fresh_files is_file_def)

section \<open>Outcomes that are and are not retried\<close>

text \<open>
  C1. The claim: a success status with no image ends the call at once, on any attempt. The
  code throws inside its own \<open>try\<close> block, the \<open>catch\<close> takes the error for a failed
  request, and before the last attempt the loop goes on. Here the first reply has status
  200 and a caption only, the second has a picture: the call sends two requests, sleeps
  in between and returns the picture.
\<close>

theorem zero_images_are_retried:
  "callGeminiGenerate configured (posix ''/home/u'') cat_request
     (fresh_world (then_picture (reply 200 [caption] []))) =
   (Inr [\<lparr>imageBase64 = ''QUJD'', image_mimeType = ''image/jpeg''\<rparr>],
    (fresh_world (then_picture (reply 200 [caption] [])))
      \<lparr>sent := [ [Text ''a cat''], [Text ''a cat''] ], drawn := 1, slept := [1500]\<rparr>)"
  by (simp add: run_simps)

text \<open>
  C2. The claim: a timeout before the last attempt is followed by another attempt. In the
  code the \<open>catch\<close> block rethrows an \<open>AbortError\<close> first of all, whatever the attempt:
  here attempt 0 times out, every later request would have been answered with a picture,
  and the call fails after its one request.
\<close>

theorem timeout_is_retried_counterexample:
  "network (fresh_world (then_picture (Rejected AbortError))) 0 = Rejected AbortError
   \<and> err_name AbortError = ''AbortError'' \<and> 0 < MAX_RETRIES
   \<and> callGeminiGenerate configured (posix ''/home/u'') cat_request
        (fresh_world (then_picture (Rejected AbortError))) =
      (Inl (Error ''Request timed out after 60 seconds''),
       (fresh_world (then_picture (Rejected AbortError)))\<lparr>sent := [ [Text ''a cat''] ]\<rparr>)"
  by (simp add: timeout_run) (simp add: fresh_world_def then_picture_def AbortError_def MAX_RETRIES_def)

text \<open>
  C2, as the code has it. Whichever request of a call times out, it is the last request of
  that call, and the call fails with the message that names the timeout in seconds.
\<close>

theorem timeout_is_terminal:
  assumes run: "callGeminiGenerate env lib request w = (res, w')"
    and k: "length (sent w) \<le> k" "k < length (sent w')"
    and out: "network w k = Rejected x" "err_name x = ''AbortError''"
  shows "Suc k = length (sent w') \<and>
         res = Inl (Error (''Request timed out after '' @ string_of_nat (REQUEST_TIMEOUT div 1000)
                            @ '' seconds''))"
proof -
  from run k obtain m body where m: "length (sent w') = length (sent w) + m + 1"
    "\<forall>i<m. \<exists>wi wi' e. length (sent wi) = length (sent w) + i \<and> network wi = network w \<and>
                       try_catch body i wi = (Continue e, wi')"
    "\<exists>wl r. length (sent wl) = length (sent w) + m \<and> network wl = network w \<and>
                    try_catch body m wl = (r, w') \<and>
                    (case r of Return imgs \<Rightarrow> res = Inr imgs | Throw e \<Rightarrow> res = Inl e
                             | Continue e \<Rightarrow> False)"
    "k - length (sent w) \<le> m"
    by (rule call_request_index)
  let ?i = "k - length (sent w)"
  have "\<not> ?i < m"
  proof
    assume "?i < m"
    with m(2) obtain wi wi' e where wi: "length (sent wi) = length (sent w) + ?i"
      "network wi = network w" "try_catch body ?i wi = (Continue e, wi')" by blast
    with k out have "network wi (length (sent wi)) = Rejected x" by simp
    from try_catch_abort [OF this out(2), of body ?i] wi(3) show False by simp
  qed
  with m(4) have im: "?i = m" by simp
  from m(3) obtain wl r where wl: "length (sent wl) = length (sent w) + m" "network wl = network w"
    "try_catch body m wl = (r, w')"
    "case r of Return imgs \<Rightarrow> res = Inr imgs | Throw e \<Rightarrow> res = Inl e | Continue e \<Rightarrow> False"
    by blast
  from wl(1) im k have "length (sent wl) = k" by simp
  with wl(2) out have "network wl (length (sent wl)) = Rejected x" by simp
  from try_catch_abort [OF this out(2), of body m] wl(3,4)
  have "res = Inl (Error ''Request timed out after 60 seconds'')" by simp
  with im m(1) k show ?thesis by (simp add: timeout_message)
qed

theorem timeout_is_terminal_witness:
  "length (sent (fresh_world (then_picture (Rejected AbortError)))) \<le> 0
   \<and> 0 < length (sent (snd (callGeminiGenerate configured (posix ''/home/u'') cat_request
                         (fresh_world (then_picture (Rejected AbortError))))))
   \<and> network (fresh_world (then_picture (Rejected AbortError))) 0 = Rejected AbortError
   \<and> err_name AbortError = ''AbortError''
   \<and> Suc 0 = length (sent (snd (callGeminiGenerate configured (posix ''/home/u'') cat_request
                         (fresh_world (then_picture (Rejected AbortError))))))
   \<and> fst (callGeminiGenerate configured (posix ''/home/u'') cat_request
            (fresh_world (then_picture (Rejected AbortError)))) =
      Inl (Error (''Request timed out after '' @ string_of_nat (REQUEST_TIMEOUT div 1000) @ '' seconds''))"
proof -
  let ?W = "fresh_world (then_picture (Rejected AbortError))"
  note run = timeout_run [of "posix ''/home/u''"]
  have h: "length (sent ?W) \<le> 0" "network ?W 0 = Rejected AbortError" "err_name AbortError = ''AbortError''"
    by (simp_all add: fresh_world_def then_picture_def AbortError_def)
  have k: "0 < length (sent (?W\<lparr>sent := [ [Text ''a cat''] ]\<rparr>))" by simp
  from timeout_is_terminal [OF run h(1) k h(2,3)] h show ?thesis
    by (simp add: run)
qed

text \<open>
  C3. The claim bounds the retried statuses by \<open>s < 599\<close>; \<open>shouldRetry\<close> has \<open>s < 600\<close>.
  Status 599 on attempt 0 is followed by attempt 1, which here succeeds.
\<close>

theorem status_599_counterexample:
  "network (fresh_world (then_picture (reply 599 [] ''upstream timeout''))) 0
      = reply 599 [] ''upstream timeout''
   \<and> \<not> ((599 :: nat) = 429 \<or> (500 \<le> (599 :: nat) \<and> (599 :: nat) < 599))
   \<and> callGeminiGenerate configured (posix ''/home/u'') cat_request
        (fresh_world (then_picture (reply 599 [] ''upstream timeout''))) =
      (Inr [\<lparr>imageBase64 = ''QUJD'', image_mimeType = ''image/jpeg''\<rparr>],
       (fresh_world (then_picture (reply 599 [] ''upstream timeout'')))
         \<lparr>sent := [ [Text ''a cat''], [Text ''a cat''] ], drawn := 2, slept := [1500]\<rparr>)"
  by (simp add: run_simps)

text \<open>
  C3, as the code has it by design. \<open>shouldRetry s\<close> holds exactly when \<open>s = 429\<close> or
  \<open>500 \<le> s < 600\<close>. When request \<open>k\<close> of a call, its attempt \<open>k - length (sent w)\<close>, is
  answered with an error status and a readable body, then: the attempt number is at most
  \<open>MAX_RETRIES\<close>; if the status is one that \<open>shouldRetry\<close> accepts and the attempt is not
  the last, the next attempt is made; on the last attempt no further request is sent and
  the call fails with the error of that response.
\<close>

theorem retryable_status_proceeds:
  assumes run: "callGeminiGenerate env lib request w = (res, w')"
    and k: "length (sent w) \<le> k" "k < length (sent w')"
    and out: "network w k = Resolved r" "\<not> ok r" "text_result r = Inr t"
  shows "(shouldRetry (status r) \<longleftrightarrow> status r = 429 \<or> (500 \<le> status r \<and> status r < 600)) \<and>
         k - length (sent w) \<le> MAX_RETRIES \<and>
         (shouldRetry (status r) \<and> k - length (sent w) < MAX_RETRIES \<longrightarrow> Suc k < length (sent w')) \<and>
         (k - length (sent w) = MAX_RETRIES \<longrightarrow>
            Suc k = length (sent w') \<and>
            res = Inl (Error (''Gemini API error '' @ string_of_nat (status r) @ '': '' @ t)))"
proof -
  from run k obtain m body where m: "m \<le> MAX_RETRIES" "length (sent w') = length (sent w) + m + 1"
    "\<forall>i<m. \<exists>wi wi' e. length (sent wi) = length (sent w) + i \<and> network wi = network w \<and>
                       try_catch body i wi = (Continue e, wi')"
    "\<exists>wl r. length (sent wl) = length (sent w) + m \<and> network wl = network w \<and>
                    try_catch body m wl = (r, w') \<and>
                    (case r of Return imgs \<Rightarrow> res = Inr imgs | Throw e \<Rightarrow> res = Inl e
                             | Continue e \<Rightarrow> False)"
    "k - length (sent w) \<le> m"
    by (rule call_request_index)
  let ?i = "k - length (sent w)"
  from m(3,4) obtain wl p where wl: "length (sent wl) = length (sent w) + m" "network wl = network w"
    "try_catch body m wl = (p, w')"
    "case p of Return imgs \<Rightarrow> res = Inr imgs | Throw e \<Rightarrow> res = Inl e | Continue e \<Rightarrow> False"
    by blast
  have proceeds: "Suc k < length (sent w')" if "shouldRetry (status r)" "?i < MAX_RETRIES"
  proof -
    have "?i \<noteq> m"
    proof
      assume im: "?i = m"
      from wl(1) im k have "length (sent wl) = k" by simp
      with wl(2) out have "network wl (length (sent wl)) = Resolved r" by simp
      from try_catch_retryable_status [OF this out(2,3) that(1), of m body] that(2) im wl(3,4)
      show False by simp
    qed
    with m(5) have "?i < m" by simp
    with m(2) k show ?thesis by simp
  qed
  have last: "Suc k = length (sent w') \<and>
      res = Inl (Error (''Gemini API error '' @ string_of_nat (status r) @ '': '' @ t))"
    if "?i = MAX_RETRIES"
  proof -
    from that m(1,5) have im: "?i = m" "m = MAX_RETRIES" by simp_all
    from wl(1) im(1) k have "length (sent wl) = k" by simp
    with wl(2) out have "network wl (length (sent wl)) = Resolved r" by simp
    from try_catch_status_last [OF this out(2,3), of body] im wl(3,4)
    have "res = Inl (Error (''Gemini API error '' @ string_of_nat (status r) @ '': '' @ t))" by simp
    with im m(2) k show ?thesis by simp
  qed
  from m(1,5) have "?i \<le> MAX_RETRIES" by simp
  with proceeds last show ?thesis by (simp add: shouldRetry_def)
qed

theorem retryable_status_proceeds_witness:
  "shouldRetry 503 \<and> (0 :: nat) < MAX_RETRIES
   \<and> Suc 0 < length (sent (snd (callGeminiGenerate configured (posix ''/home/u'') cat_request
                        (fresh_world (then_picture (reply 503 [] ''overloaded''))))))
   \<and> Suc 3 = length (sent (snd (callGeminiGenerate configured (posix ''/home/u'') cat_request
                        (fresh_world (\<lambda>k. reply 503 [] ''overloaded'')))))
   \<and> fst (callGeminiGenerate configured (posix ''/home/u'') cat_request
            (fresh_world (\<lambda>k. reply 503 [] ''overloaded''))) =
      Inl (Error (''Gemini API error '' @ string_of_nat 503 @ '': '' @ ''overloaded''))"
proof -
  let ?r = "\<lparr>status = 503,
             json_result = Inr \<lparr>candidates = Some [\<lparr>content = Some \<lparr>parts = Some []\<rparr>\<rparr>]\<rparr>,
             text_result = Inr ''overloaded''\<rparr>"
  let ?W = "fresh_world (then_picture (reply 503 [] ''overloaded''))"
  let ?V = "fresh_world (\<lambda>k. reply 503 [] ''overloaded'')"
  note run1 = busy_then_picture_run [of "posix ''/home/u''"]
  note run2 = always_503_run [of "posix ''/home/u''"]
  have r: "\<not> ok ?r" "text_result ?r = Inr ''overloaded''" "status ?r = 503"
    by (simp_all add: ok_def)
  have w: "length (sent ?W) \<le> 0" "network ?W 0 = Resolved ?r"
    "0 < length (sent (?W\<lparr>sent := [ [Text ''a cat''], [Text ''a cat''] ], drawn := 2, slept := [1500]\<rparr>))"
    by (simp_all add: fresh_world_def then_picture_def reply_def)
  have v: "length (sent ?V) \<le> 3" "network ?V 3 = Resolved ?r"
    "3 < length (sent (?V\<lparr>sent := [ [Text ''a cat''], [Text ''a cat''], [Text ''a cat''], [Text ''a cat''] ],
                           drawn := 6, slept := [1500, 2500, 4500]\<rparr>))"
    "sent ?V = []"
    by (simp_all add: fresh_world_def reply_def)
  from retryable_status_proceeds [OF run1 w(1,3,2) r(1,2)]
       retryable_status_proceeds [OF run2 v(1,3,2) r(1,2)]
  show ?thesis
    by (simp add: run1 run2 r v(4) shouldRetry_def MAX_RETRIES_def)
qed

section \<open>Error messages\<close>

text \<open>
  C7. The claim: every terminal provider error carries the status code and a truncated
  body. The failure for a reply without images is the fixed message, with no status and
  no body; the failure for an error status carries the whole body, here 600 characters
  after the 22 characters of the prefix.
\<close>

theorem error_message_counterexample:
  "fst (callGeminiGenerate configured (posix ''/home/u'') cat_request
          (fresh_world (\<lambda>k. reply 200 [caption] ''{}''))) =
     Inl (JsError ''Error'' ''No image data returned by Gemini API'')
   \<and> \<not> sublist ''200'' (err_message (projl (fst (callGeminiGenerate configured (posix ''/home/u'')
          cat_request (fresh_world (\<lambda>k. reply 200 [caption] ''{}''))))))
   \<and> err_message (projl (fst (callGeminiGenerate configured (posix ''/home/u'') cat_request
          (fresh_world (\<lambda>k. reply 400 [] (replicate 600 CHR ''x'')))))) =
       ''Gemini API error 400: '' @ replicate 600 CHR ''x''
   \<and> length (err_message (projl (fst (callGeminiGenerate configured (posix ''/home/u'') cat_request
          (fresh_world (\<lambda>k. reply 400 [] (replicate 600 CHR ''x''))))))) = 622"
proof -
  have "\<not> sublist ''200'' ''No image data returned by Gemini API''" by code_simp
  then show ?thesis
    by (simp add: always_caption_run always_400_run Error_def)
qed

text \<open>
  C7, as the code has it. When a call that sent a request fails, its message is decided by
  the outcome of the last request. A timeout gives \<open>Request timed out after N seconds\<close>
  with \<open>N = REQUEST_TIMEOUT / 1000\<close>; an error status with a readable body gives
  \<open>Gemini API error\<close>, the status, a colon and the complete body; a success status
  whose body decodes gives \<open>No image data returned by Gemini API\<close>; any other rejection
  (of the request or of reading the body) surfaces with its own message.
\<close>

theorem surfaced_error_messages:
  assumes run: "callGeminiGenerate env lib request w = (Inl e, w')"
    and issued: "sent w' \<noteq> sent w"
  shows "err_message e =
     (case network w (length (sent w') - 1) of
        Rejected x \<Rightarrow>
          if err_name x = ''AbortError''
          then ''Request timed out after '' @ string_of_nat (REQUEST_TIMEOUT div 1000) @ '' seconds''
          else err_message x
      | Resolved r \<Rightarrow>
          if ok r then
            (case json_result r of
               Inl x \<Rightarrow>
                 if err_name x = ''AbortError''
                 then ''Request timed out after '' @ string_of_nat (REQUEST_TIMEOUT div 1000) @ '' seconds''
                 else err_message x
             | Inr json \<Rightarrow> ''No image data returned by Gemini API'')
          else
            (case text_result r of
               Inl x \<Rightarrow>
                 if err_name x = ''AbortError''
                 then ''Request timed out after '' @ string_of_nat (REQUEST_TIMEOUT div 1000) @ '' seconds''
                 else err_message x
             | Inr errorText \<Rightarrow>
                 ''Gemini API error '' @ string_of_nat (status r) @ '': '' @ errorText))"
proof -
  from call_runs_loop [OF run issued] obtain body where "retry_loop body 0 None w = (Inl e, w')" ..
  then obtain m wl p where
    m: "length (sent w') = length (sent w) + m + 1"
    and wl: "length (sent wl) = length (sent w) + m" "network wl = network w"
      "try_catch body m wl = (p, w')"
      "case p of Return imgs \<Rightarrow> (Inl e :: js_error + image list) = Inr imgs
               | Throw e' \<Rightarrow> (Inl e :: js_error + image list) = Inl e' | Continue e' \<Rightarrow> False"
    by (rule retry_loop_last_pass)
  from wl(4) have p: "p = Throw e" by (cases p) auto
  from m wl(1,2) have net: "network wl (length (sent wl)) = network w (length (sent w') - 1)"
    by simp
  from wl(3) p have "try_catch body m wl = (Throw e, w')" by simp
  from try_catch_throw_message [OF this] show ?thesis
    unfolding net .
qed

theorem surfaced_error_messages_witness:
  "sent (snd (callGeminiGenerate configured (posix ''/home/u'') cat_request
               (fresh_world (\<lambda>k. reply 400 [] (replicate 600 CHR ''x'')))))
     \<noteq> sent (fresh_world (\<lambda>k. reply 400 [] (replicate 600 CHR ''x'')))
   \<and> err_message (Error (''Gemini API error 400: '' @ replicate 600 CHR ''x'')) =
       ''Gemini API error '' @ string_of_nat 400 @ '': '' @ replicate 600 CHR ''x''"
proof -
  let ?W = "fresh_world (\<lambda>k. reply 400 [] (replicate 600 CHR ''x''))"
  let ?W' = "?W\<lparr>sent := [ [Text ''a cat''], [Text ''a cat''], [Text ''a cat''], [Text ''a cat''] ],
         drawn := 3, slept := [1500, 2500, 4500]\<rparr>"
  note run = always_400_run [of "posix ''/home/u''"]
  have issued: "sent ?W' \<noteq> sent ?W"
    by (simp add: fresh_world_def)
  have last: "network ?W (length (sent ?W') - 1) = reply 400 [] (replicate 600 CHR ''x'')"
    by (simp add: fresh_world_def)
  from surfaced_error_messages [OF run issued]
  have "err_message (Error (''Gemini API error 400: '' @ replicate 600 CHR ''x'')) =
       ''Gemini API error '' @ string_of_nat 400 @ '': '' @ replicate 600 CHR ''x''"
    unfolding last by (simp add: reply_def ok_def)
  with issued show ?thesis by (simp add: run)
qed

section \<open>The retry budget and the backoff delays\<close>




section \<open>Request construction\<close>

text \<open>
  C4. With a key configured and every input image resolvable (it has base64 text, or it
  has a path whose file can be read and is not empty), every request that the call sends
  carries the same parts: the text of the prompt first, then one inline-data part for each
  input image, in the order of the inputs. The part of image \<open>i\<close> is element \<open>i + 1\<close>; it
  holds the MIME type of the input, \<open>image/png\<close> by default, and its base64 text, or the
  base64 text of its file. At least one request is sent. Nothing depends on the number of
  images or on the length of the prompt.
\<close>

theorem parts_order:
  assumes key: "trim (GEMINI_API_KEY env) \<noteq> []"
    and imgs: "imgs = (case images request of None \<Rightarrow> [] | Some xs \<Rightarrow> xs)"
    and resolvable: "\<forall>img \<in> set imgs. truthy (dataBase64 img) \<or>
             (truthy (path img) \<and> (\<exists>d. fileToBase64 lib w (the (path img)) = Inr d \<and> d \<noteq> []))"
    and run: "callGeminiGenerate env lib request w = (res, w')"
  shows "\<exists>n body. 1 \<le> n \<and> sent w' = sent w @ replicate n body \<and>
           length body = Suc (length imgs) \<and> body ! 0 = Text (prompt request) \<and>
           (\<forall>i<length imgs. \<exists>d.
              body ! Suc i =
                Inline_data (case mimeType (imgs ! i) of None \<Rightarrow> ''image/png'' | Some m \<Rightarrow> m) d \<and>
              (if truthy (dataBase64 (imgs ! i)) then dataBase64 (imgs ! i) = Some d
               else fileToBase64 lib w (the (path (imgs ! i))) = Inr d))"
proof -
  from to_parts_resolvable [OF resolvable] obtain ps where
    ps: "toInlineDataParts lib w (Some imgs) = Inr ps" "length ps = length imgs"
      "\<forall>i<length imgs. \<exists>d.
              ps ! i = Inline_data (case mimeType (imgs ! i) of None \<Rightarrow> ''image/png'' | Some m \<Rightarrow> m) d \<and>
              (if truthy (dataBase64 (imgs ! i)) then dataBase64 (imgs ! i) = Some d
               else fileToBase64 lib w (the (path (imgs ! i))) = Inr d)"
    by blast
  have "toInlineDataParts lib w (images request) = Inr ps"
  proof (cases "images request")
    case None
    with imgs ps(2) show ?thesis by (simp add: toInlineDataParts_def)
  next
    case (Some xs)
    with imgs ps(1) show ?thesis by simp
  qed
  moreover from key have "GEMINI_API_KEY env \<noteq> []" by (auto simp: trim_def)
  ultimately have "retry_loop (Text (prompt request) # ps) 0 None w = (res, w')"
    using run key by (simp add: callGeminiGenerate_def)
  from retry_loop_trace [OF this]
  have "\<exists>n. sent w' = sent w @ replicate (Suc n) (Text (prompt request) # ps)"
    by blast
  then obtain n where "sent w' = sent w @ replicate (Suc n) (Text (prompt request) # ps)" ..
  with ps(2,3) show ?thesis
    by (intro exI [of _ "Suc n"] exI [of _ "Text (prompt request) # ps"]) simp
qed

theorem parts_order_witness:
  "trim (GEMINI_API_KEY configured) \<noteq> []
   \<and> truthy (dataBase64 (two_inputs ! 0))
   \<and> truthy (path (two_inputs ! 1))
   \<and> fileToBase64 (posix ''/home/u'') (with_input_file (fresh_world (\<lambda>k. reply 200 [picture] [])))
         (the (path (two_inputs ! 1))) = Inr ''QUJD''
   \<and> (\<exists>n body. 1 \<le> n \<and>
         [ [Text ''blend them'', Inline_data ''image/jpeg'' ''AAAA'', Inline_data ''image/png'' ''QUJD''] ]
           = replicate n body \<and>
         length body = Suc (length two_inputs) \<and> body ! 0 = Text ''blend them'' \<and>
         (\<forall>i<length two_inputs. \<exists>d.
            body ! Suc i =
              Inline_data (case mimeType (two_inputs ! i) of None \<Rightarrow> ''image/png'' | Some m \<Rightarrow> m) d))"
proof -
  let ?W = "with_input_file (fresh_world (\<lambda>k. reply 200 [picture] []))"
  have key: "trim (GEMINI_API_KEY configured) \<noteq> []" by (simp add: configured_key)
  have im: "two_inputs = (case images blend_request of None \<Rightarrow> [] | Some xs \<Rightarrow> xs)"
    by (simp add: blend_request_def)
  have res: "\<forall>img \<in> set two_inputs. truthy (dataBase64 img) \<or>
         (truthy (path img) \<and>
          (\<exists>d. fileToBase64 (posix ''/home/u'') ?W (the (path img)) = Inr d \<and> d \<noteq> []))"
    by (simp add: two_inputs_def input_file_base64)
  have s: "sent ?W = []" by (simp add: with_input_file_def fresh_world_def)
  from parts_order [OF key im res blend_run]
  have "\<exists>n body. 1 \<le> n \<and>
         [ [Text ''blend them'', Inline_data ''image/jpeg'' ''AAAA'', Inline_data ''image/png'' ''QUJD''] ]
           = replicate n body \<and>
         length body = Suc (length two_inputs) \<and> body ! 0 = Text ''blend them'' \<and>
         (\<forall>i<length two_inputs. \<exists>d.
            body ! Suc i =
              Inline_data (case mimeType (two_inputs ! i) of None \<Rightarrow> ''image/png'' | Some m \<Rightarrow> m) d)"
    unfolding s by (simp add: blend_request_def) blast
  moreover have "truthy (dataBase64 (two_inputs ! 0))" "truthy (path (two_inputs ! 1))"
    "fileToBase64 (posix ''/home/u'') ?W (the (path (two_inputs ! 1))) = Inr ''QUJD''"
    by (simp_all add: two_inputs_def input_file_base64)
  ultimately show ?thesis using key by blast
qed

text \<open>
  C8. When the key is absent or empty, or some input image has no base64 text and either
  no path or a path that cannot be read, the call fails with an error and leaves the
  world as it was: no request has been sent.
\<close>

theorem fail_fast:
  assumes "env ''GEMINI_API_KEY'' = None \<or> env ''GEMINI_API_KEY'' = Some [] \<or>
           (\<exists>imgs. images request = Some imgs \<and>
              (\<exists>img \<in> set imgs. \<not> truthy (dataBase64 img) \<and>
                 (\<not> truthy (path img) \<or> (\<exists>e. readFile w (resolve lib (the (path img))) = Inl e))))"
  shows "\<exists>e. callGeminiGenerate env lib request w = (Inl e, w) \<and>
             sent (snd (callGeminiGenerate env lib request w)) = sent w"
proof (cases "GEMINI_API_KEY env = [] \<or> trim (GEMINI_API_KEY env) = []")
  case True
  then show ?thesis by (auto simp: callGeminiGenerate_def)
next
  case False
  then have "env ''GEMINI_API_KEY'' \<noteq> None" "env ''GEMINI_API_KEY'' \<noteq> Some []"
    by (auto simp: GEMINI_API_KEY_def split: option.splits)
  with assms obtain imgs where imgs: "images request = Some imgs"
    "\<exists>img \<in> set imgs. \<not> truthy (dataBase64 img) \<and>
        (\<not> truthy (path img) \<or> (\<exists>e. readFile w (resolve lib (the (path img))) = Inl e))"
    by auto
  then have "\<exists>img \<in> set imgs. \<exists>e. inline_part lib w img = Inl e"
    using inline_part_unresolvable by blast
  from inline_parts_loop_fails [OF this, of "[]"] obtain e where
    e: "inline_parts_loop lib w [] imgs = Inl e" ..
  from imgs(2) have "imgs \<noteq> []" by auto
  with imgs(1) e have "toInlineDataParts lib w (images request) = Inl e"
    by (simp add: toInlineDataParts_def)
  with False show ?thesis by (simp add: callGeminiGenerate_def)
qed

theorem fail_fast_witness:
  "(Map.empty :: process_env) ''GEMINI_API_KEY'' = None
   \<and> callGeminiGenerate Map.empty (posix ''/home/u'') cat_request (fresh_world (\<lambda>k. reply 200 [picture] [])) =
       (Inl (Error ''GEMINI_API_KEY environment variable is required but not set or empty''),
        fresh_world (\<lambda>k. reply 200 [picture] []))
   \<and> (\<exists>img \<in> set two_inputs. \<not> truthy (dataBase64 img) \<and>
         (\<exists>e. readFile (fresh_world (\<lambda>k. reply 200 [picture] []))
                 (resolve (posix ''/home/u'') (the (path img))) = Inl e))
   \<and> (\<exists>e. callGeminiGenerate configured (posix ''/home/u'') blend_request
              (fresh_world (\<lambda>k. reply 200 [picture] [])) =
            (Inl e, fresh_world (\<lambda>k. reply 200 [picture] [])))"
proof -
  let ?W = "fresh_world (\<lambda>k. reply 200 [picture] [])"
  have a: "(Map.empty :: process_env) ''GEMINI_API_KEY'' = None" by simp
  have b: "\<exists>img \<in> set two_inputs. \<not> truthy (dataBase64 img) \<and>
         (\<exists>e. readFile ?W (resolve (posix ''/home/u'') (the (path img))) = Inl e)"
    by (simp add: two_inputs_def readFile_def fresh_world_def)
  then have c: "\<exists>imgs. images blend_request = Some imgs \<and>
              (\<exists>img \<in> set imgs. \<not> truthy (dataBase64 img) \<and>
                 (\<not> truthy (path img) \<or>
                  (\<exists>e. readFile ?W (resolve (posix ''/home/u'') (the (path img))) = Inl e)))"
    by (auto simp: blend_request_def)
  from fail_fast [of Map.empty cat_request ?W "posix ''/home/u''"] a
  have "callGeminiGenerate Map.empty (posix ''/home/u'') cat_request ?W =
       (Inl (Error ''GEMINI_API_KEY environment variable is required but not set or empty''), ?W)"
    by (simp add: callGeminiGenerate_def GEMINI_API_KEY_def)
  moreover from fail_fast [of configured blend_request ?W "posix ''/home/u''"] c
  have "\<exists>e. callGeminiGenerate configured (posix ''/home/u'') blend_request ?W = (Inl e, ?W)"
    by blast
  ultimately show ?thesis using a b by simp
qed

section \<open>Where an image is saved\<close>




text \<open>
  C6. Let \<open>resolved\<close> be the absolute candidate path, \<open>dir\<close> its directory, \<open>ext\<close> the
  extension, a string, and \<open>cand k\<close> the name with \<open>_k\<close> put before the extension, and let
  \<open>w1\<close> be the file system once \<open>dir\<close> has been made. If the candidate exists and some counter from 1 on is free, the
  image is written to \<open>cand j\<close> for the first free counter \<open>j\<close>. Whatever path a save
  returns did not exist before the save, and everything that existed before the save
  exists unchanged after it: no save overwrites. Two saves in succession with the same
  hint, into a world where neither the candidate nor \<open>cand 1\<close> exists: the first is
  written to the candidate, the second to \<open>cand 1\<close>, and the first file still holds the
  first image. The example after the theorem saves to \<open>./out.png\<close> where that name and \<open>out_1.png\<close> are
  taken, twice to \<open>./out\<close>, and twice to the name that \<open>generateDefaultFileName\<close> makes
  for one and the same instant.
\<close>

theorem collision_suffix:
  assumes hint: "hint \<noteq> []"
    and resolved: "resolved = resolve lib (basePath lib mime hint)"
    and dir: "dir = dirname lib resolved"
    and cand: "cand = (\<lambda>k. join lib dir (basename lib resolved ext
                                          @ ''_'' @ string_of_nat k @ ext))"
    and mk: "mkdir dir w = Inr w1"
    and wf: "\<forall>p. write_fault w p = None"
    and ext: "extension lib mime hint = Str ext"
  shows "(access w1 resolved \<and> (\<exists>k>0. \<not> access w1 (cand k)) \<longrightarrow>
            (\<exists>j>0. maybeSaveImage lib b64 mime (Some hint) w =
                      Some (Inr (Some (cand j)),
                            w1\<lparr>files := (files w1)(cand j \<mapsto> File (fromBase64 lib b64))\<rparr>) \<and>
                    \<not> access w1 (cand j) \<and> (\<forall>i. 0 < i \<and> i < j \<longrightarrow> access w1 (cand i))))
       \<and> (\<forall>p w2. maybeSaveImage lib b64 mime (Some hint) w = Some (Inr (Some p), w2) \<longrightarrow>
            files w p = None \<and> (\<forall>q e. files w q = Some e \<longrightarrow> files w2 q = Some e))
       \<and> (\<not> access w1 resolved \<and> \<not> access w1 (cand 1) \<and> cand 1 \<noteq> resolved \<longrightarrow>
            (\<exists>w2 w3. maybeSaveImage lib b64 mime (Some hint) w = Some (Inr (Some resolved), w2) \<and>
                     maybeSaveImage lib b64' mime (Some hint) w2 = Some (Inr (Some (cand 1)), w3) \<and>
                     files w3 resolved = Some (File (fromBase64 lib b64))))"
proof (intro conjI impI allI)
  assume a: "access w1 resolved \<and> (\<exists>k>0. \<not> access w1 (cand k))"
  define j where "j = (LEAST k. 0 < k \<and> \<not> access w1 (cand k))"
  from a have "\<exists>k. 0 < k \<and> \<not> access w1 (cand k)" by blast
  then have j: "0 < j \<and> \<not> access w1 (cand j)"
    unfolding j_def by (rule LeastI_ex)
  have below: "access w1 (cand i)" if "0 < i" "i < j" for i
    using not_less_Least [of i "\<lambda>k. 0 < k \<and> \<not> access w1 (cand k)"] that
    unfolding j_def by blast
  have "maybeSaveImage lib b64 mime (Some hint) w =
          Some (Inr (Some (cand j)), w1\<lparr>files := (files w1)(cand j \<mapsto> File (fromBase64 lib b64))\<rparr>)"
    unfolding cand dir resolved
    by (rule save_collision [OF hint mk [unfolded dir resolved] _ _ _ _ wf ext])
       (use a j below in \<open>simp_all add: cand dir resolved\<close>)
  with j below
  show "\<exists>j>0. maybeSaveImage lib b64 mime (Some hint) w =
                      Some (Inr (Some (cand j)),
                            w1\<lparr>files := (files w1)(cand j \<mapsto> File (fromBase64 lib b64))\<rparr>) \<and>
                    \<not> access w1 (cand j) \<and> (\<forall>i. 0 < i \<and> i < j \<longrightarrow> access w1 (cand i))"
    by blast
next
  fix p w2
  assume "maybeSaveImage lib b64 mime (Some hint) w = Some (Inr (Some p), w2)"
  from maybeSaveImage_keeps [OF this] show "files w p = None" by simp
next
  fix p w2 q e
  assume "maybeSaveImage lib b64 mime (Some hint) w = Some (Inr (Some p), w2)"
    and "files w q = Some e"
  with maybeSaveImage_keeps show "files w2 q = Some e" by blast
next
  assume a: "\<not> access w1 resolved \<and> \<not> access w1 (cand 1) \<and> cand 1 \<noteq> resolved"
  show "\<exists>w2 w3. maybeSaveImage lib b64 mime (Some hint) w = Some (Inr (Some resolved), w2) \<and>
                     maybeSaveImage lib b64' mime (Some hint) w2 = Some (Inr (Some (cand 1)), w3) \<and>
                     files w3 resolved = Some (File (fromBase64 lib b64))"
    unfolding cand dir resolved
    by (rule save_twice [OF hint mk [unfolded dir resolved] _ _ _ wf ext])
       (use a in \<open>simp_all add: cand dir resolved\<close>)
qed

theorem collision_suffix_witness:
  "(map_option fst (maybeSaveImage (posix ''/home/u'') ''QUJD'' ''image/jpeg'' (Some ''./out.png'') crowded)
     = Some (Inr (Some ''/home/u/out_2.png''))
   \<and> (\<exists>w2 w3.
        maybeSaveImage (posix ''/home/u'') ''QUJD'' ''image/jpeg'' (Some ''./out'')
          (fresh_world (\<lambda>k. reply 200 [picture] [])) = Some (Inr (Some ''/home/u/out.jpg''), w2) \<and>
        maybeSaveImage (posix ''/home/u'') ''QUJE'' ''image/jpeg'' (Some ''./out'') w2 =
          Some (Inr (Some ''/home/u/out_1.jpg''), w3) \<and>
        files w3 ''/home/u/out.jpg'' = Some (File (fromBase64 (posix ''/home/u'') ''QUJD''))))
   \<and> (generateDefaultFileName configured ''generate'' ''image/jpeg'' (fresh_world (\<lambda>k. reply 200 [picture] []))
     = Inr ''/home/u/Downloads/gemini-images/generate-2025-01-02-03-04-05-678Z.jpg''
   \<and> (\<exists>w2 w3.
        maybeSaveImage (posix ''/home/u'') ''QUJD'' ''image/jpeg''
          (Some ''/home/u/Downloads/gemini-images/generate-2025-01-02-03-04-05-678Z.jpg'')
          (fresh_world (\<lambda>k. reply 200 [picture] [])) =
          Some (Inr (Some ''/home/u/Downloads/gemini-images/generate-2025-01-02-03-04-05-678Z.jpg''), w2) \<and>
        maybeSaveImage (posix ''/home/u'') ''QUJE'' ''image/jpeg''
          (Some ''/home/u/Downloads/gemini-images/generate-2025-01-02-03-04-05-678Z.jpg'') w2 =
          Some (Inr (Some ''/home/u/Downloads/gemini-images/generate-2025-01-02-03-04-05-678Z_1.jpg''), w3) \<and>
        files w3 ''/home/u/Downloads/gemini-images/generate-2025-01-02-03-04-05-678Z.jpg'' =
          Some (File (fromBase64 (posix ''/home/u'') ''QUJD''))))"
proof -
  have taken: "map_option fst (maybeSaveImage (posix ''/home/u'') ''QUJD'' ''image/jpeg'' (Some ''./out.png'') crowded)
     = Some (Inr (Some ''/home/u/out_2.png''))
   \<and> (\<exists>w2 w3.
        maybeSaveImage (posix ''/home/u'') ''QUJD'' ''image/jpeg'' (Some ''./out'')
          (fresh_world (\<lambda>k. reply 200 [picture] [])) = Some (Inr (Some ''/home/u/out.jpg''), w2) \<and>
        maybeSaveImage (posix ''/home/u'') ''QUJE'' ''image/jpeg'' (Some ''./out'') w2 =
          Some (Inr (Some ''/home/u/out_1.jpg''), w3) \<and>
        files w3 ''/home/u/out.jpg'' = Some (File (fromBase64 (posix ''/home/u'') ''QUJD'')))"
  proof -
    let ?L = "posix ''/home/u''"
    let ?W = "fresh_world (\<lambda>k. reply 200 [picture] [])"
    let ?W1 = "?W\<lparr>files := (\<lambda>p. if p \<in> set [''/home'', ''/home/u''] \<and> files ?W p = None
                                then Some Directory else files ?W p)\<rparr>"
    let ?C1 = "crowded\<lparr>files := (\<lambda>p. if p \<in> set [''/home'', ''/home/u''] \<and> files crowded p = None
                                   then Some Directory else files crowded p)\<rparr>"
    let ?candp = "\<lambda>k. join ?L ''/home/u'' (basename ?L ''/home/u/out.png'' ''.png''
                          @ ''_'' @ string_of_nat k @ ''.png'')"
    let ?candj = "\<lambda>k. join ?L ''/home/u'' (basename ?L ''/home/u/out.jpg'' ''.jpg''
                          @ ''_'' @ string_of_nat k @ ''.jpg'')"
    have rp: "''/home/u/out.png'' = resolve ?L (basePath ?L ''image/jpeg'' ''./out.png'')"
      "''/home/u'' = dirname ?L ''/home/u/out.png''"
      by (simp_all add: out_png_paths posix_fields posix_out_png)
    have rj: "''/home/u/out.jpg'' = resolve ?L (basePath ?L ''image/jpeg'' ''./out'')"
      "''/home/u'' = dirname ?L ''/home/u/out.jpg''"
      by (simp_all add: out_jpg_paths posix_fields posix_out_jpg)
    have cp: "?candp 1 = ''/home/u/out_1.png''" "?candp 2 = ''/home/u/out_2.png''"
      by (simp_all add: out_png_paths posix_fields posix_out_png small_numbers)
    have cj: "?candj 1 = ''/home/u/out_1.jpg''"
      by (simp add: out_jpg_paths posix_fields posix_out_jpg small_numbers)
    have hp: "''./out.png'' \<noteq> []" and hj: "''./out'' \<noteq> []" by simp_all
    have wfc: "\<forall>p. write_fault crowded p = None" and wff: "\<forall>p. write_fault ?W p = None"
      by (simp_all add: crowded_files fresh_files)
    have ex: "access ?C1 ''/home/u/out.png''" "access ?C1 (?candp 1)" "\<not> access ?C1 (?candp 2)"
      unfolding cp by (simp_all add: access_def crowded_files)
    then have pre: "access ?C1 ''/home/u/out.png'' \<and> (\<exists>k>0. \<not> access ?C1 (?candp k))"
      by (intro conjI exI [of _ 2]) simp_all
    note c = collision_suffix [where hint = "''./out.png''" and resolved = "''/home/u/out.png''"
        and lib = ?L and mime = "''image/jpeg''" and dir = "''/home/u''" and cand = ?candp
        and ext = "''.png''" and w = crowded and ?w1.0 = ?C1 and ?b64.0 = "''QUJD''" and b64' = "''QUJE''",
        OF hp rp refl crowded_mkdir_home wfc out_png_paths(1)]
    from c [THEN conjunct1, rule_format, OF pre]
    obtain j where j: "0 < j"
      "maybeSaveImage ?L ''QUJD'' ''image/jpeg'' (Some ''./out.png'') crowded =
         Some (Inr (Some (?candp j)), ?C1\<lparr>files := (files ?C1)(?candp j \<mapsto> File (fromBase64 ?L ''QUJD''))\<rparr>)"
      "\<not> access ?C1 (?candp j)" "\<forall>i. 0 < i \<and> i < j \<longrightarrow> access ?C1 (?candp i)"
      by blast
    from j(4) ex(3) have "\<not> 2 < j" by auto
    moreover from j(3) ex(2) have "j \<noteq> 1" by auto
    ultimately have "j = 2" using j(1) by simp
    with j(2) cp(2) have first:
      "map_option fst (maybeSaveImage ?L ''QUJD'' ''image/jpeg'' (Some ''./out.png'') crowded)
         = Some (Inr (Some ''/home/u/out_2.png''))"
      by simp
    have free: "\<not> access ?W1 ''/home/u/out.jpg'' \<and> \<not> access ?W1 (?candj 1) \<and> ?candj 1 \<noteq> ''/home/u/out.jpg''"
      unfolding cj by (simp add: access_def fresh_files)
    note t = collision_suffix [where hint = "''./out''" and resolved = "''/home/u/out.jpg''"
        and lib = ?L and mime = "''image/jpeg''" and dir = "''/home/u''" and cand = ?candj
        and ext = "''.jpg''" and w = ?W and ?w1.0 = ?W1 and ?b64.0 = "''QUJD''" and b64' = "''QUJE''",
        OF hj rj refl fresh_mkdir_home wff out_jpg_paths(1)]
    from t [THEN conjunct2, THEN conjunct2, rule_format, OF free]
    have "\<exists>w2 w3.
          maybeSaveImage ?L ''QUJD'' ''image/jpeg'' (Some ''./out'') ?W = Some (Inr (Some ''/home/u/out.jpg''), w2) \<and>
          maybeSaveImage ?L ''QUJE'' ''image/jpeg'' (Some ''./out'') w2 =
            Some (Inr (Some ''/home/u/out_1.jpg''), w3) \<and>
          files w3 ''/home/u/out.jpg'' = Some (File (fromBase64 ?L ''QUJD''))"
      unfolding cj .
    with first show ?thesis by blast
  qed
  have synthesized: "generateDefaultFileName configured ''generate'' ''image/jpeg'' (fresh_world (\<lambda>k. reply 200 [picture] []))
     = Inr ''/home/u/Downloads/gemini-images/generate-2025-01-02-03-04-05-678Z.jpg''
   \<and> (\<exists>w2 w3.
        maybeSaveImage (posix ''/home/u'') ''QUJD'' ''image/jpeg''
          (Some ''/home/u/Downloads/gemini-images/generate-2025-01-02-03-04-05-678Z.jpg'')
          (fresh_world (\<lambda>k. reply 200 [picture] [])) =
          Some (Inr (Some ''/home/u/Downloads/gemini-images/generate-2025-01-02-03-04-05-678Z.jpg''), w2) \<and>
        maybeSaveImage (posix ''/home/u'') ''QUJE'' ''image/jpeg''
          (Some ''/home/u/Downloads/gemini-images/generate-2025-01-02-03-04-05-678Z.jpg'') w2 =
          Some (Inr (Some ''/home/u/Downloads/gemini-images/generate-2025-01-02-03-04-05-678Z_1.jpg''), w3) \<and>
        files w3 ''/home/u/Downloads/gemini-images/generate-2025-01-02-03-04-05-678Z.jpg'' =
          Some (File (fromBase64 (posix ''/home/u'') ''QUJD'')))"
  proof -
    let ?L = "posix ''/home/u''"
    let ?W = "fresh_world (\<lambda>k. reply 200 [picture] [])"
    let ?N = "''/home/u/Downloads/gemini-images/generate-2025-01-02-03-04-05-678Z.jpg''"
    let ?dir = "''/home/u/Downloads/gemini-images''"
    let ?D = "?W\<lparr>files := (\<lambda>p. if p \<in> set (ancestors ?dir) \<and> files ?W p = None
                               then Some Directory else files ?W p)\<rparr>"
    let ?cand = "\<lambda>k. join ?L ?dir (basename ?L ?N ''.jpg'' @ ''_'' @ string_of_nat k @ ''.jpg'')"
    have paths: "extension ?L ''image/jpeg'' ?N = Str ''.jpg''" "basePath ?L ''image/jpeg'' ?N = ?N"
      by (simp_all add: extension_def basePath_def providedExt_def posix_fields posix_synthesized)
    have rn: "?N = resolve ?L (basePath ?L ''image/jpeg'' ?N)" "?dir = dirname ?L ?N"
      unfolding paths by (simp_all add: posix_fields posix_synthesized)
    have c1: "?cand 1 = ''/home/u/Downloads/gemini-images/generate-2025-01-02-03-04-05-678Z_1.jpg''"
      unfolding paths by (simp add: posix_fields posix_synthesized small_numbers)
    have hn: "?N \<noteq> []" by simp
    have wf: "\<forall>p. write_fault ?W p = None" by (simp add: fresh_files)
    have free: "\<not> access ?D ?N \<and> \<not> access ?D (?cand 1) \<and> ?cand 1 \<noteq> ?N"
      unfolding c1 by (simp add: access_def fresh_files images_ancestors)
    note t = collision_suffix [where hint = ?N and resolved = ?N and lib = ?L
        and mime = "''image/jpeg''" and dir = ?dir and cand = ?cand and ext = "''.jpg''" and w = ?W
        and ?w1.0 = ?D and ?b64.0 = "''QUJD''" and b64' = "''QUJE''",
        OF hn rn refl fresh_mkdir_images wf paths(1)]
    from t [THEN conjunct2, THEN conjunct2, rule_format, OF free]
    have "\<exists>w2 w3.
          maybeSaveImage ?L ''QUJD'' ''image/jpeg'' (Some ?N) ?W = Some (Inr (Some ?N), w2) \<and>
          maybeSaveImage ?L ''QUJE'' ''image/jpeg'' (Some ?N) w2 =
            Some (Inr (Some ''/home/u/Downloads/gemini-images/generate-2025-01-02-03-04-05-678Z_1.jpg''), w3) \<and>
          files w3 ?N = Some (File (fromBase64 ?L ''QUJD''))"
      unfolding c1 .
    with synthesized_name show ?thesis by blast
  qed
  from taken synthesized show ?thesis by blast
qed

section \<open>What a tool does with the images\<close>



end
